theory Spec2Isabelle
  imports Complex_Main "HOL-Library.Char_ord" "HOL-Library.List_Lexorder" "HOL-Library.Multiset"
begin

section \<open>Values, errors and outcomes\<close>

text \<open>
  The value that \<^verbatim>\<open>encoding/json\<close> stores into an \<^verbatim>\<open>interface{}\<close>: nil, bool,
  float64, string, \<^verbatim>\<open>[]interface{}\<close> or \<^verbatim>\<open>map[string]interface{}\<close>. A float64 read
  from JSON text is finite; it is represented by the real number it denotes. A Go map is
  represented by an association list read with \<open>map_of\<close>.
\<close>

datatype json =
    JNull
  | JBool bool
  | JNumber real
  | JString string
  | JArray "json list"
  | JObject "(string \<times> json) list"

text \<open>
  The error values of the packages. \<open>ErrorString\<close> is \<^verbatim>\<open>errors.New\<close> of a fixed
  message, \<open>MalformedObject raw\<close> is
  \<^verbatim>\<open>errors.New(fmt.Sprintf("malformed object: %v", raw))\<close>, \<open>FailedAllAttempts err\<close> is
  \<^verbatim>\<open>errors.New(fmt.Sprintf("error: %v\nFailed all attempts. Skipping.", err))\<close>,
  \<open>ProcessingGET err\<close> is the error built by \<^verbatim>\<open>Get\<close> around the error of
  \<^verbatim>\<open>http.NewRequest\<close>, \<open>JSONDecodeError\<close> is the struct of that name and
  \<open>LibraryError\<close> is any error produced by the Go libraries (net/http, net/url,
  encoding/json, io).
\<close>

datatype error =
    ErrorString string
  | MalformedObject json
  | LibraryError string
  | FailedAllAttempts "error option"
  | ProcessingGET error
  | JSONDecodeError error string

text \<open>
  A run-time panic unwinds the caller; it is not an error value. \<open>LogFatal err\<close> is
  \<^verbatim>\<open>log.Fatal(err)\<close>, which ends the process.
\<close>

datatype panic =
    IndexOutOfRange nat nat
  | NilDereference
  | SendOnClosedChannel
  | NegativeChanSize
  | LogFatal error

text \<open>
  A Go function that returns \<^verbatim>\<open>(value, error)\<close> with the value nil exactly when the
  error is not nil has a \<open>result\<close>; one whose two return values are independent has
  an \<open>outcome\<close> holding the pair.
\<close>

datatype 'a result = Ok 'a | Error error | Panic panic

datatype 'a outcome = Returned 'a | Panicked panic

text \<open>
  What \<^verbatim>\<open>json.Unmarshal(b, &raw)\<close> makes of the bytes \<open>b\<close> when \<open>raw\<close> is an
  \<^verbatim>\<open>interface{}\<close>: \<open>Inl\<close> the error when \<open>b\<close> is not JSON text, \<open>Inr\<close> the value
  that \<open>b\<close> denotes.
\<close>

type_synonym parsed = "error + json"

text \<open>
  \<^verbatim>\<open>json.Unmarshal(b, &raw)\<close> for \<^verbatim>\<open>var raw map[string]interface{}\<close>: an object
  fills the map, \<^verbatim>\<open>null\<close> leaves it nil (which reads as the empty map), any other
  value is an \<^verbatim>\<open>UnmarshalTypeError\<close>.
\<close>

definition json_Unmarshal_map :: "parsed \<Rightarrow> error + (string \<times> json) list" where
  "json_Unmarshal_map b =
     (case b of
        Inl err \<Rightarrow> Inl err
      | Inr (JObject m) \<Rightarrow> Inr m
      | Inr JNull \<Rightarrow> Inr []
      | Inr _ \<Rightarrow> Inl (LibraryError ''json: cannot unmarshal into Go value of type map[string]interface {}''))"

text \<open>Indexing a Go map: a missing key reads as the zero value, the nil interface.\<close>

definition map_index :: "(string \<times> json) list \<Rightarrow> string \<Rightarrow> json" where
  "map_index m k = (case map_of m k of None \<Rightarrow> JNull | Some v \<Rightarrow> v)"

text \<open>
  The conversion \<^verbatim>\<open>int(s)\<close> of a float64: truncation toward zero when the result
  fits the 64-bit \<^verbatim>\<open>int\<close>; otherwise the Go specification leaves the value to the
  implementation, here the parameter \<open>impl\<close>.
\<close>

definition trunc_toward_zero :: "real \<Rightarrow> int" where
  "trunc_toward_zero s = (if 0 \<le> s then \<lfloor>s\<rfloor> else \<lceil>s\<rceil>)"

definition fits_int :: "real \<Rightarrow> bool" where
  "fits_int s = (- (2 ^ 63) \<le> trunc_toward_zero s \<and> trunc_toward_zero s < 2 ^ 63)"

definition go_int :: "(real \<Rightarrow> int) \<Rightarrow> real \<Rightarrow> int" where
  "go_int impl s = (if fits_int s then trunc_toward_zero s else impl s)"


section \<open>Typed records and their custom decoders\<close>

record DomainCategorization =
  Status :: int
  ContentCategories :: "string list"
  SecurityCategories :: "string list"

record Cooccurrence =
  Domain :: string
  Score :: real


record RelatedDomain =
  Domain :: string
  Score :: int

record RelatedDomainList =
  RelatedDomains :: "RelatedDomain list"

record GeoFeatures =
  CountryCode :: string
  VisitRatio :: real



text \<open>The loop of \<^verbatim>\<open>RelatedDomainList.UnmarshalJSON\<close> over \<^verbatim>\<open>raw["tb1"]\<close>.\<close>

fun related_loop ::
  "(real \<Rightarrow> int) \<Rightarrow> error \<Rightarrow> json list \<Rightarrow> RelatedDomain list \<Rightarrow> RelatedDomain list result" where
  "related_loop impl malfErr [] acc = Ok acc"
| "related_loop impl malfErr (r # rds) acc =
     (case r of
        JArray double \<Rightarrow>
          if length double \<le> 0 then Panic (IndexOutOfRange 0 (length double))
          else
            (case double ! 0 of
               JString d \<Rightarrow>
                 if length double \<le> 1 then Panic (IndexOutOfRange 1 (length double))
                 else
                   (case double ! 1 of
                      JNumber s \<Rightarrow>
                        related_loop impl malfErr rds
                          (acc @ [\<lparr>Domain = d, Score = go_int impl s\<rparr>])
                    | _ \<Rightarrow> Error (ErrorString ''Could not convert double[1] to int''))
             | _ \<Rightarrow> Error (ErrorString ''Could not convert double[0] to string''))
      | _ \<Rightarrow> Error malfErr)"

definition RelatedDomainList_UnmarshalJSON ::
  "(real \<Rightarrow> int) \<Rightarrow> parsed \<Rightarrow> RelatedDomainList result" where
  "RelatedDomainList_UnmarshalJSON impl b =
     (case json_Unmarshal_map b of
        Inl err \<Rightarrow> Error err
      | Inr raw \<Rightarrow>
          (let malfErr = MalformedObject (JObject raw) in
           case map_index raw ''tb1'' of
             JArray rds \<Rightarrow>
               (case related_loop impl malfErr rds [] of
                  Ok rs \<Rightarrow> Ok \<lparr>RelatedDomains = rs\<rparr>
                | Error e \<Rightarrow> Error e
                | Panic p \<Rightarrow> Panic p)
           | _ \<Rightarrow> Error malfErr))"

text \<open>
  \<^verbatim>\<open>GeoFeatures.UnmarshalJSON\<close>: \<open>raw\<close> is an \<^verbatim>\<open>interface{}\<close>, so every JSON value
  unmarshals; \<^verbatim>\<open>gfList[0]\<close> and \<^verbatim>\<open>gfList[1]\<close> are plain slice reads.
\<close>

definition GeoFeatures_UnmarshalJSON :: "parsed \<Rightarrow> GeoFeatures result" where
  "GeoFeatures_UnmarshalJSON b =
     (case b of
        Inl err \<Rightarrow> Error err
      | Inr raw \<Rightarrow>
          (let malfErr = MalformedObject raw in
           case raw of
             JArray gfList \<Rightarrow>
               if length gfList \<le> 0 then Panic (IndexOutOfRange 0 (length gfList))
               else
                 (case gfList ! 0 of
                    JString cc \<Rightarrow>
                      if length gfList \<le> 1 then Panic (IndexOutOfRange 1 (length gfList))
                      else
                        (case gfList ! 1 of
                           JNumber vr \<Rightarrow> Ok \<lparr>CountryCode = cc, VisitRatio = vr\<rparr>
                         | _ \<Rightarrow> Error malfErr)
                  | _ \<Rightarrow> Error malfErr)
           | _ \<Rightarrow> Error malfErr))"

text \<open>
  Shapes of one element of a pair list: \<open>pair_prefix\<close> holds of an array whose element 0
  is a string and whose element 1 is a number (whatever follows); \<open>short_array\<close> holds of
  an array with fewer than two elements.
\<close>

fun pair_prefix :: "json \<Rightarrow> bool" where
  "pair_prefix (JArray (JString d # JNumber s # rest)) = True"
| "pair_prefix _ = False"


fun pair_domain :: "json \<Rightarrow> string" where
  "pair_domain (JArray (JString d # rest)) = d"
| "pair_domain _ = []"

fun pair_number :: "json \<Rightarrow> real" where
  "pair_number (JArray (x # JNumber s # rest)) = s"
| "pair_number _ = 0"


text \<open>The record that a decoder builds from one accepted element.\<close>

definition to_related :: "(real \<Rightarrow> int) \<Rightarrow> json \<Rightarrow> RelatedDomain" where
  "to_related impl x = \<lparr>Domain = pair_domain x, Score = go_int impl (pair_number x)\<rparr>"



section \<open>Response bodies and the response decoder\<close>

text \<open>
  An \<^verbatim>\<open>io.ReadCloser\<close>: the bytes not yet read, the error with which reading ends
  after them (\<open>None\<close> for a clean end of file), and the number of times \<^verbatim>\<open>Close\<close>
  has been called.
\<close>

record ReadCloser =
  unread :: string
  read_error :: "error option"
  closes :: nat

definition Close :: "ReadCloser \<Rightarrow> ReadCloser" where
  "Close r = r\<lparr>closes := Suc (closes r)\<rparr>"

text \<open>\<^verbatim>\<open>ioutil.ReadAll\<close>: everything still unread, and the error if reading failed.\<close>

definition ioutil_ReadAll :: "ReadCloser \<Rightarrow> (string \<times> error option) \<times> ReadCloser" where
  "ioutil_ReadAll r = ((unread r, read_error r), r\<lparr>unread := []\<rparr>)"

text \<open>
  \<^verbatim>\<open>json.NewDecoder(r).Decode(v)\<close> for one Go type of \<open>v\<close> is a parameter: given the
  stream it answers how many bytes the decoder took from the stream (it reads ahead into a
  buffer of its own) and the outcome, \<open>Inr\<close> the decoded value when the error is nil.
\<close>

type_synonym 'v decoder = "ReadCloser \<Rightarrow> nat \<times> (error + 'v)"

definition json_Decode :: "'v decoder \<Rightarrow> ReadCloser \<Rightarrow> (error + 'v) \<times> ReadCloser" where
  "json_Decode d r = (case d r of (n, res) \<Rightarrow> (res, r\<lparr>unread := drop n (unread r)\<rparr>))"

text \<open>
  \<^verbatim>\<open>parseBody\<close> of \<^verbatim>\<open>goinvestigate.go\<close>. The type switch on \<open>v\<close> is the argument
  \<open>target\<close>: \<open>Some d\<close> for one of the eight supported types, with \<open>d\<close> the decoding into
  that type, \<open>None\<close> for any other type. The deferred \<^verbatim>\<open>Close\<close> runs at every return.
  The result is the returned error, or the value left in \<open>v\<close> when the error is nil.
\<close>

definition parseBody :: "'v decoder option \<Rightarrow> ReadCloser \<Rightarrow> (error + 'v) \<times> ReadCloser" where
  "parseBody target respBody =
     (case (case target of
              Some d \<Rightarrow> json_Decode d respBody
            | None \<Rightarrow> (Inl (ErrorString ''type of v is unsupported''), respBody)) of
        (Inr v, body1) \<Rightarrow> (Inr v, Close body1)
      | (Inl err, body1) \<Rightarrow>
          (case ioutil_ReadAll body1 of
             ((body, Some readErr), body2) \<Rightarrow> (Inl err, Close body2)
           | ((body, None), body2) \<Rightarrow> (Inl (JSONDecodeError err body), Close body2)))"

text \<open>
  \<^verbatim>\<open>parseBody\<close> of the two packages with the untyped API: the decoder leaves a value
  (or nil) in \<open>respJson\<close> and an error (or nil), and both are returned.
\<close>

type_synonym 'v plain_decoder = "ReadCloser \<Rightarrow> nat \<times> ('v option \<times> error option)"

definition parseBody_plain ::
  "'v plain_decoder \<Rightarrow> ReadCloser \<Rightarrow> ('v option \<times> error option) \<times> ReadCloser" where
  "parseBody_plain d respBody =
     (case d respBody of
        (n, (respJson, err)) \<Rightarrow>
          ((respJson, err), Close (respBody\<lparr>unread := drop n (unread respBody)\<rparr>)))"


section \<open>Transport\<close>

text \<open>
  The parts of \<^verbatim>\<open>net/url\<close> and \<^verbatim>\<open>net/http\<close> that the packages use. A parsed URL
  keeps its query string apart; what else the parser extracts is the field \<open>parts\<close>.
  \<^verbatim>\<open>url.Parse\<close> and \<^verbatim>\<open>URL.String\<close> are parameters, collected in \<open>urllib\<close>.
\<close>

record URL =
  RawQuery :: string
  parts :: string

record urllib =
  url_Parse :: "string \<Rightarrow> error + URL"
  URL_String :: "URL \<Rightarrow> string"

record request =
  Method :: string
  ReqURL :: URL
  Header :: "string \<rightharpoonup> string"

record response =
  StatusCode :: int
  Body :: "ReadCloser option"

definition new_Response :: response where
  "new_Response = \<lparr>StatusCode = 0, Body = None\<rparr>"

definition http_NewRequest :: "urllib \<Rightarrow> string \<Rightarrow> string \<Rightarrow> error + request" where
  "http_NewRequest lib method url =
     (case url_Parse lib url of
        Inl err \<Rightarrow> Inl err
      | Inr u \<Rightarrow> Inr \<lparr>Method = method, ReqURL = u, Header = Map.empty\<rparr>)"

text \<open>
  The HTTP client is a scripted transport with a call log: \<open>client cl n req\<close> is what
  \<^verbatim>\<open>inv.client.Do(req)\<close> returns on the call number \<open>n\<close> (from 0), and the log holds
  the requests sent so far. Log output is not modelled.
\<close>

type_synonym transport = "nat \<Rightarrow> request \<Rightarrow> error + response"

record Investigate =
  client :: transport
  apikey :: string
  verbose :: bool

definition client_Do ::
  "Investigate \<Rightarrow> request \<Rightarrow> request list \<Rightarrow> (error + response) \<times> request list" where
  "client_Do cl req net = (client cl (length net) req, net @ [req])"

definition baseUrl :: string where
  "baseUrl = ''https://investigate.api.opendns.com''"

definition maxTries :: nat where
  "maxTries = 5"

text \<open>
  The retry loop of \<^verbatim>\<open>Request\<close> in \<^verbatim>\<open>goinvestigate.go\<close>; its state is
  \<open>resp\<close>, \<open>err\<close> and \<open>tries\<close>.
\<close>

function Request_loop ::
  "Investigate \<Rightarrow> request \<Rightarrow> response \<Rightarrow> error option \<Rightarrow> nat \<Rightarrow> request list \<Rightarrow>
     (response option \<times> error option) \<times> request list" where
  "Request_loop cl req resp err tries net =
     (if Body resp = None \<and> tries < maxTries then
        (case client_Do cl req net of
           (Inl e, net') \<Rightarrow>
             if tries = maxTries - 1 then ((None, Some (FailedAllAttempts (Some e))), net')
             else Request_loop cl req new_Response (Some e) (Suc tries) net'
         | (Inr r, net') \<Rightarrow>
             if StatusCode r \<ge> 300 then
               (if tries = maxTries - 1 then ((None, Some (FailedAllAttempts None)), net')
                else Request_loop cl req new_Response None (Suc tries) net')
             else Request_loop cl req r None (Suc tries) net')
      else ((Some resp, err), net))"
  by pat_completeness auto
termination
  by (relation "measure (\<lambda>(cl, req, resp, err, tries, net). maxTries - tries)") auto

declare Request_loop.simps [simp del]

definition set_Authorization :: "Investigate \<Rightarrow> request \<Rightarrow> request" where
  "set_Authorization cl req =
     req\<lparr>Header := (Header req)(''Authorization'' \<mapsto> ''Bearer '' @ apikey cl)\<rparr>"

definition Request ::
  "Investigate \<Rightarrow> request \<Rightarrow> request list \<Rightarrow>
     (response option \<times> error option) \<times> request list" where
  "Request cl req net = Request_loop cl (set_Authorization cl req) new_Response None 0 net"

text \<open>
  The retry loop of \<^verbatim>\<open>Request\<close> in the packages with the untyped API: only a
  transport error counts as a failure, the status code is not looked at.
\<close>

function Request_plain_loop ::
  "Investigate \<Rightarrow> request \<Rightarrow> response \<Rightarrow> error option \<Rightarrow> nat \<Rightarrow> request list \<Rightarrow>
     (response option \<times> error option) \<times> request list" where
  "Request_plain_loop cl req resp err tries net =
     (if Body resp = None \<and> tries < maxTries then
        (case client_Do cl req net of
           (Inl e, net') \<Rightarrow>
             if tries = maxTries - 1 then ((None, Some (FailedAllAttempts (Some e))), net')
             else Request_plain_loop cl req new_Response (Some e) (Suc tries) net'
         | (Inr r, net') \<Rightarrow> Request_plain_loop cl req r None (Suc tries) net')
      else ((Some resp, err), net))"
  by pat_completeness auto
termination
  by (relation "measure (\<lambda>(cl, req, resp, err, tries, net). maxTries - tries)") auto

declare Request_plain_loop.simps [simp del]

definition Request_plain ::
  "Investigate \<Rightarrow> request \<Rightarrow> request list \<Rightarrow>
     (response option \<times> error option) \<times> request list" where
  "Request_plain cl req net =
     Request_plain_loop cl (set_Authorization cl req) new_Response None 0 net"

text \<open>
  An attempt that the loop of \<^verbatim>\<open>goinvestigate.go\<close> treats as failed
  (\<^verbatim>\<open>err != nil || resp.StatusCode >= 300\<close>), and the value of \<open>err\<close> after an attempt.
\<close>

definition failing :: "error + response \<Rightarrow> bool" where
  "failing out = (case out of Inl e \<Rightarrow> True | Inr r \<Rightarrow> StatusCode r \<ge> 300)"

definition last_error :: "error + response \<Rightarrow> error option" where
  "last_error out = (case out of Inl e \<Rightarrow> Some e | Inr r \<Rightarrow> None)"

definition Get ::
  "urllib \<Rightarrow> Investigate \<Rightarrow> string \<Rightarrow> request list \<Rightarrow>
     (response option \<times> error option) \<times> request list" where
  "Get lib cl subUri net =
     (case http_NewRequest lib ''GET'' (baseUrl @ subUri) of
        Inl err \<Rightarrow> ((None, Some (ProcessingGET err)), net)
      | Inr req \<Rightarrow> Request cl req net)"

definition Get_plain ::
  "urllib \<Rightarrow> Investigate \<Rightarrow> string \<Rightarrow> request list \<Rightarrow>
     (response option \<times> error option) \<times> request list" where
  "Get_plain lib cl subUri net =
     (case http_NewRequest lib ''GET'' (baseUrl @ subUri) of
        Inl err \<Rightarrow> ((None, Some (ProcessingGET err)), net)
      | Inr req \<Rightarrow> Request_plain cl req net)"

text \<open>
  \<^verbatim>\<open>GetParse\<close> of \<^verbatim>\<open>goinvestigate.go\<close>. \<^verbatim>\<open>resp.Body\<close> is passed on as it is;
  \<^verbatim>\<open>parseBody\<close> dereferences it, which panics when it is nil.
\<close>

definition GetParse ::
  "urllib \<Rightarrow> Investigate \<Rightarrow> string \<Rightarrow> 'v decoder option \<Rightarrow> request list \<Rightarrow>
     'v result \<times> request list" where
  "GetParse lib cl subUri target net =
     (case Get lib cl subUri net of
        ((resp, Some err), net') \<Rightarrow> (Error err, net')
      | ((None, None), net') \<Rightarrow> (Panic NilDereference, net')
      | ((Some resp, None), net') \<Rightarrow>
          (case Body resp of
             None \<Rightarrow> (Panic NilDereference, net')
           | Some body \<Rightarrow>
               (case fst (parseBody target body) of
                  Inl err \<Rightarrow> (Error err, net')
                | Inr v \<Rightarrow> (Ok v, net'))))"

definition GetParse_plain ::
  "urllib \<Rightarrow> Investigate \<Rightarrow> 'v plain_decoder \<Rightarrow> string \<Rightarrow> request list \<Rightarrow>
     ('v option \<times> error option) outcome \<times> request list" where
  "GetParse_plain lib cl d subUri net =
     (case Get_plain lib cl subUri net of
        ((resp, Some err), net') \<Rightarrow> (Returned (None, Some err), net')
      | ((None, None), net') \<Rightarrow> (Panicked NilDereference, net')
      | ((Some resp, None), net') \<Rightarrow>
          (case Body resp of
             None \<Rightarrow> (Panicked NilDereference, net')
           | Some body \<Rightarrow> (Returned (fst (parseBody_plain d body)), net')))"


section \<open>Single-item operations\<close>

text \<open>
  \<^verbatim>\<open>fmt.Sprintf\<close> for format strings whose only verb is \<^verbatim>\<open>%s\<close>, as all format
  strings of \<open>urls\<close> are, applied to strings.
\<close>

definition extra_args :: "string list \<Rightarrow> string" where
  "extra_args args =
     (if args = [] then []
      else ''%!(EXTRA '' @
        foldr (\<lambda>a r. ''string='' @ a @ (if r = [] then [] else '', '' @ r)) args [] @ '')'')"

fun Sprintf :: "string \<Rightarrow> string list \<Rightarrow> string" where
  "Sprintf [] args = extra_args args"
| "Sprintf [c] args = c # extra_args args"
| "Sprintf (c # v # rest) args =
     (if c = CHR ''%'' \<and> v = CHR ''s'' then
        (case args of
           [] \<Rightarrow> ''%!s(MISSING)'' @ Sprintf rest []
         | a # as \<Rightarrow> a @ Sprintf rest as)
      else c # Sprintf (v # rest) args)"

definition urls :: "(string \<times> string) list" where
  "urls =
     [(''ip'', ''/dnsdb/ip/%s/%s.json''),
      (''domain'', ''/dnsdb/name/%s/%s.json''),
      (''categorization'', ''/domains/categorization/%s''),
      (''related'', ''/links/name/%s.json''),
      (''cooccurrences'', ''/recommendations/name/%s.json''),
      (''security'', ''/security/name/%s.json''),
      (''tags'', ''/domains/%s/latest_tags''),
      (''latest_domains'', ''/ips/%s/latest_domains'')]"

text \<open>Indexing the map \<open>urls\<close>: a missing key reads as the empty string.\<close>

definition urls_at :: "string \<Rightarrow> string" where
  "urls_at k = (case map_of urls k of None \<Rightarrow> [] | Some f \<Rightarrow> f)"

definition supportedQueryTypes :: "(string \<times> int) list" where
  "supportedQueryTypes = [(''A'', 1), (''NS'', 1), (''MX'', 1), (''TXT'', 1), (''CNAME'', 1)]"

definition queryTypeSupported :: "string \<Rightarrow> bool" where
  "queryTypeSupported qType = (map_of supportedQueryTypes qType \<noteq> None)"

definition IpRRHistory ::
  "urllib \<Rightarrow> Investigate \<Rightarrow> 'v decoder \<Rightarrow> string \<Rightarrow> string \<Rightarrow> request list \<Rightarrow>
     'v result \<times> request list" where
  "IpRRHistory lib cl d ip queryType net =
     (if \<not> queryTypeSupported queryType then (Error (ErrorString ''unsupported query type''), net)
      else
        (case GetParse lib cl (Sprintf (urls_at ''ip'') [queryType, ip]) (Some d) net of
           (Error err, net') \<Rightarrow> (Error err, net')
         | (Panic p, net') \<Rightarrow> (Panic p, net')
         | (Ok resp, net') \<Rightarrow> (Ok resp, net')))"

definition DomainRRHistory ::
  "urllib \<Rightarrow> Investigate \<Rightarrow> 'v decoder \<Rightarrow> string \<Rightarrow> string \<Rightarrow> request list \<Rightarrow>
     'v result \<times> request list" where
  "DomainRRHistory lib cl d domain queryType net =
     (if \<not> queryTypeSupported queryType then (Error (ErrorString ''unsupported query type''), net)
      else
        (case GetParse lib cl (Sprintf (urls_at ''domain'') [queryType, domain]) (Some d) net of
           (Error err, net') \<Rightarrow> (Error err, net')
         | (Panic p, net') \<Rightarrow> (Panic p, net')
         | (Ok resp, net') \<Rightarrow> (Ok resp, net')))"

text \<open>
  \<^verbatim>\<open>regexp.MatchString\<close> for the one pattern \<^verbatim>\<open>(\d{1,3}\.){3}\d{1,3}\<close> of
  \<^verbatim>\<open>RRHistory\<close>: the pattern is not anchored, so it matches when some suffix of the
  string starts with three groups of one to three digits and a dot, and then a digit. The
  pattern compiles, so the returned error is nil.
\<close>

definition is_digit :: "char \<Rightarrow> bool" where
  "is_digit c = (c \<in> set ''0123456789'')"

definition digits_dot :: "string \<Rightarrow> string option" where
  "digits_dot s =
     (let ds = takeWhile is_digit s; rest = dropWhile is_digit s
      in if 1 \<le> length ds \<and> length ds \<le> 3 \<and> rest \<noteq> [] \<and> hd rest = CHR ''.''
         then Some (tl rest) else None)"

definition ip_match_here :: "string \<Rightarrow> bool" where
  "ip_match_here s =
     (case digits_dot s of
        None \<Rightarrow> False
      | Some r1 \<Rightarrow>
          (case digits_dot r1 of
             None \<Rightarrow> False
           | Some r2 \<Rightarrow>
               (case digits_dot r2 of
                  None \<Rightarrow> False
                | Some r3 \<Rightarrow> r3 \<noteq> [] \<and> is_digit (hd r3))))"

fun ip_match_anywhere :: "string \<Rightarrow> bool" where
  "ip_match_anywhere [] = False"
| "ip_match_anywhere (c # cs) = (ip_match_here (c # cs) \<or> ip_match_anywhere cs)"

definition regexp_MatchString_ip :: "string \<Rightarrow> bool \<times> error option" where
  "regexp_MatchString_ip query = (ip_match_anywhere query, None)"

text \<open>
  \<^verbatim>\<open>RRHistory\<close> with its two helpers, from the package with the untyped API; its
  \<open>urls\<close> agree with the table above on the keys \<^verbatim>\<open>ip\<close> and \<^verbatim>\<open>domain\<close>.
\<close>

definition ipRRHistory ::
  "urllib \<Rightarrow> Investigate \<Rightarrow> json plain_decoder \<Rightarrow> string \<Rightarrow> string \<Rightarrow> request list \<Rightarrow>
     (json option \<times> error option) outcome \<times> request list" where
  "ipRRHistory lib cl d ip queryType net =
     GetParse_plain lib cl d (Sprintf (urls_at ''ip'') [queryType, ip]) net"

definition domainRRHistory ::
  "urllib \<Rightarrow> Investigate \<Rightarrow> json plain_decoder \<Rightarrow> string \<Rightarrow> string \<Rightarrow> request list \<Rightarrow>
     (json option \<times> error option) outcome \<times> request list" where
  "domainRRHistory lib cl d domain queryType net =
     GetParse_plain lib cl d (Sprintf (urls_at ''domain'') [queryType, domain]) net"

definition RRHistory ::
  "urllib \<Rightarrow> Investigate \<Rightarrow> json plain_decoder \<Rightarrow> string \<Rightarrow> string \<Rightarrow> request list \<Rightarrow>
     (json option \<times> error option) outcome \<times> request list" where
  "RRHistory lib cl d query queryType net =
     (if map_of supportedQueryTypes queryType = None then
        (Returned (None, Some (ErrorString ''unsupported query type'')), net)
      else
        (case regexp_MatchString_ip query of
           (True, err) \<Rightarrow> ipRRHistory lib cl d query queryType net
         | (False, Some err) \<Rightarrow> (Returned (None, Some err), net)
         | (False, None) \<Rightarrow> domainRRHistory lib cl d query queryType net))"

text \<open>
  \<^verbatim>\<open>url.Values\<close> with \<^verbatim>\<open>Set\<close> and \<^verbatim>\<open>Encode\<close>: the keys in sorted order, each
  value as \<^verbatim>\<open>key=value\<close> with both sides query-escaped, joined by \<^verbatim>\<open>&\<close>.
\<close>

type_synonym Values = "(string \<times> string list) list"

definition Values_Set :: "Values \<Rightarrow> string \<Rightarrow> string \<Rightarrow> Values" where
  "Values_Set v k x = (k, [x]) # filter (\<lambda>p. fst p \<noteq> k) v"

definition is_alnum :: "char \<Rightarrow> bool" where
  "is_alnum c =
     (c \<in> set ''0123456789abcdefghijklmnopqrstuvwxyzABCDEFGHIJKLMNOPQRSTUVWXYZ'')"

definition hex_digit :: "nat \<Rightarrow> char" where
  "hex_digit n = ''0123456789ABCDEF'' ! (n mod 16)"

definition escape_byte :: "char \<Rightarrow> string" where
  "escape_byte c =
     (if is_alnum c \<or> c \<in> set ''-_.~'' then [c]
      else if c = CHR '' '' then ''+''
      else [CHR ''%'', hex_digit (of_char c div 16), hex_digit (of_char c)])"

definition QueryEscape :: "string \<Rightarrow> string" where
  "QueryEscape s = concat (map escape_byte s)"

definition encode_key :: "string \<times> string list \<Rightarrow> string list" where
  "encode_key p = map (\<lambda>x. QueryEscape (fst p) @ ''='' @ QueryEscape x) (snd p)"

fun join_amp :: "string list \<Rightarrow> string" where
  "join_amp [] = []"
| "join_amp [x] = x"
| "join_amp (x # y # zs) = x @ ''&'' @ join_amp (y # zs)"

definition Values_Encode :: "Values \<Rightarrow> string" where
  "Values_Encode v = join_amp (concat (map encode_key (sort_key fst v)))"

definition catUri :: "urllib \<Rightarrow> string \<Rightarrow> bool \<Rightarrow> string outcome" where
  "catUri lib domain labels =
     (case url_Parse lib (Sprintf (urls_at ''categorization'') [domain]) of
        Inl err \<Rightarrow> Panicked (LogFatal err)
      | Inr uri \<Rightarrow>
          (let v = (if labels then Values_Set [] ''showLabels'' ''true'' else [])
           in Returned (URL_String lib (uri\<lparr>RawQuery := Values_Encode v\<rparr>))))"

text \<open>
  \<^verbatim>\<open>Categorization\<close> of \<^verbatim>\<open>goinvestigate.go\<close>; \<open>d\<close> is the decoding into
  \<^verbatim>\<open>map[string]DomainCategorization\<close>, its value the content of the map \<open>resp\<close>.
\<close>

definition Categorization ::
  "urllib \<Rightarrow> Investigate \<Rightarrow> (string \<rightharpoonup> DomainCategorization) decoder \<Rightarrow> string \<Rightarrow> bool \<Rightarrow>
     request list \<Rightarrow> DomainCategorization result \<times> request list" where
  "Categorization lib cl d domain labels net =
     (case catUri lib domain labels of
        Panicked p \<Rightarrow> (Panic p, net)
      | Returned uri \<Rightarrow>
          (case GetParse lib cl uri (Some d) net of
             (Error err, net') \<Rightarrow> (Error err, net')
           | (Panic p, net') \<Rightarrow> (Panic p, net')
           | (Ok resp, net') \<Rightarrow>
               (case resp domain of
                  None \<Rightarrow> (Error (ErrorString ''received a malformed response body''), net')
                | Some cat \<Rightarrow> (Ok cat, net'))))"

section \<open>Batch fan-out engine\<close>

text \<open>
  The single-item fetch-and-decode that a worker applies to a URI: \<^verbatim>\<open>GetParse\<close> of the
  package with \<^verbatim>\<open>pGetParse\<close>, as a function of the URI and the call log.
\<close>

type_synonym 'v fetch =
  "string \<Rightarrow> request list \<Rightarrow> ('v option \<times> error option) outcome \<times> request list"

text \<open>
  \<^verbatim>\<open>doPGetParse\<close> run on its own over the URIs it takes from \<^verbatim>\<open>inChan\<close> until the
  channel is closed and empty: the values it sends on \<^verbatim>\<open>outChan\<close>, in order, after
  those already there. It then sends on \<^verbatim>\<open>done\<close>.
\<close>

fun doPGetParse ::
  "'v fetch \<Rightarrow> string list \<Rightarrow> 'v option list \<Rightarrow> request list \<Rightarrow>
     ('v option list \<times> request list) outcome" where
  "doPGetParse fetch [] out net = Returned (out, net)"
| "doPGetParse fetch (uri # uris) out net =
     (case fetch uri net of
        (Panicked p, net') \<Rightarrow> Panicked p
      | (Returned (outVal, err), net') \<Rightarrow>
          if err \<noteq> None then doPGetParse fetch uris (out @ [outVal]) net'
          else doPGetParse fetch uris out net')"

text \<open>
  The goroutines of \<^verbatim>\<open>pGetParse\<close> run interleaved. A worker is at the head of its
  \<^verbatim>\<open>range inChan\<close> loop, at \<^verbatim>\<open>outChan <- outVal\<close>, at \<^verbatim>\<open>done <- 1\<close>, or has
  returned.
\<close>

datatype 'v worker = Ranging | Sending "'v option" | Signalling | Exited

text \<open>
  The state of one batch: the URIs the producer goroutine has still to send; the three
  channels with their buffers, capacities and closed flags (\<^verbatim>\<open>done\<close> carries only
  ones, so its buffer is a count); the workers; the number of receives the supervisor
  goroutine has still to do; what the caller's \<^verbatim>\<open>range\<close> loop over the returned
  channel has received and whether it has ended; the call log of the transport; and the
  panic that has stopped the process, if any. Four fields record the history: \<open>fetched\<close>
  holds, in the order of the fetches, every URI a worker took with what the fetch
  returned for it; \<open>pushed\<close> holds everything that was sent on \<^verbatim>\<open>outChan\<close>;
  \<open>signalled\<close> holds for each worker the number of sends on \<^verbatim>\<open>done\<close> it has made;
  and \<open>collected\<close> is the number of receives from \<^verbatim>\<open>done\<close> the supervisor has made.
\<close>

record 'v engine =
  pending :: "string list"
  inChan :: "string list"
  inCap :: nat
  inClosed :: bool
  workers :: "'v worker list"
  outChan :: "'v option list"
  outCap :: nat
  outClosed :: bool
  doneChan :: nat
  doneCap :: nat
  waiting :: nat
  received :: "'v option list"
  finished :: bool
  netlog :: "request list"
  crashed :: "panic option"
  fetched :: "(string \<times> ('v option \<times> error option)) list"
  pushed :: "'v option list"
  signalled :: "nat list"
  collected :: nat

text \<open>
  \<^verbatim>\<open>pGetParse\<close> makes the channels and starts the goroutines; \<^verbatim>\<open>make\<close> panics on a
  negative size. The state is the one in which every goroutine is started and none has
  taken a step.
\<close>

definition pGetParse :: "int \<Rightarrow> string list \<Rightarrow> request list \<Rightarrow> 'v engine outcome" where
  "pGetParse maxGoroutines subUris net =
     (if maxGoroutines < 0 then Panicked NegativeChanSize
      else Returned
        \<lparr>pending = subUris,
         inChan = [], inCap = length subUris, inClosed = False,
         workers = replicate (nat maxGoroutines) Ranging,
         outChan = [], outCap = length subUris, outClosed = False,
         doneChan = 0, doneCap = nat maxGoroutines,
         waiting = nat maxGoroutines,
         received = [], finished = False,
         netlog = net, crashed = None,
         fetched = [], pushed = [],
         signalled = replicate (nat maxGoroutines) 0, collected = 0\<rparr>)"

text \<open>
  One step of one goroutine. A send on a buffered channel needs room in the buffer, a
  receive needs a buffered value or a closed channel, and a send on a closed channel
  panics. \<^verbatim>\<open>inChan\<close> and \<^verbatim>\<open>outChan\<close> have the size of the URI list, so they are
  unbuffered only when there is no URI and nothing is ever sent on them; \<^verbatim>\<open>done\<close> has
  the size of the pool. A fetch is one step: the calls of different workers to the
  transport are not interleaved. Nothing runs after a panic.
\<close>

inductive engine_step :: "'v fetch \<Rightarrow> 'v engine \<Rightarrow> 'v engine \<Rightarrow> bool" for fetch where
  producer_send:
    "crashed s = None \<Longrightarrow> pending s = u # us \<Longrightarrow> length (inChan s) < inCap s \<Longrightarrow>
     engine_step fetch s (s\<lparr>pending := us, inChan := inChan s @ [u]\<rparr>)"
| producer_close:
    "crashed s = None \<Longrightarrow> pending s = [] \<Longrightarrow> \<not> inClosed s \<Longrightarrow>
     engine_step fetch s (s\<lparr>inClosed := True\<rparr>)"
| worker_push:
    "crashed s = None \<Longrightarrow> i < length (workers s) \<Longrightarrow> workers s ! i = Ranging \<Longrightarrow>
     inChan s = u # us \<Longrightarrow> fetch u (netlog s) = (Returned (outVal, Some err), net') \<Longrightarrow>
     engine_step fetch s
       (s\<lparr>inChan := us, netlog := net', workers := (workers s)[i := Sending outVal],
          fetched := fetched s @ [(u, (outVal, Some err))]\<rparr>)"
| worker_drop:
    "crashed s = None \<Longrightarrow> i < length (workers s) \<Longrightarrow> workers s ! i = Ranging \<Longrightarrow>
     inChan s = u # us \<Longrightarrow> fetch u (netlog s) = (Returned (outVal, None), net') \<Longrightarrow>
     engine_step fetch s
       (s\<lparr>inChan := us, netlog := net', fetched := fetched s @ [(u, (outVal, None))]\<rparr>)"
| worker_panic:
    "crashed s = None \<Longrightarrow> i < length (workers s) \<Longrightarrow> workers s ! i = Ranging \<Longrightarrow>
     inChan s = u # us \<Longrightarrow> fetch u (netlog s) = (Panicked p, net') \<Longrightarrow>
     engine_step fetch s (s\<lparr>inChan := us, netlog := net', crashed := Some p\<rparr>)"
| worker_send:
    "crashed s = None \<Longrightarrow> i < length (workers s) \<Longrightarrow> workers s ! i = Sending v \<Longrightarrow>
     \<not> outClosed s \<Longrightarrow> length (outChan s) < outCap s \<Longrightarrow>
     engine_step fetch s
       (s\<lparr>outChan := outChan s @ [v], pushed := pushed s @ [v],
          workers := (workers s)[i := Ranging]\<rparr>)"
| worker_send_closed:
    "crashed s = None \<Longrightarrow> i < length (workers s) \<Longrightarrow> workers s ! i = Sending v \<Longrightarrow>
     outClosed s \<Longrightarrow>
     engine_step fetch s
       (s\<lparr>workers := (workers s)[i := Exited], crashed := Some SendOnClosedChannel\<rparr>)"
| worker_drained:
    "crashed s = None \<Longrightarrow> i < length (workers s) \<Longrightarrow> workers s ! i = Ranging \<Longrightarrow>
     inChan s = [] \<Longrightarrow> inClosed s \<Longrightarrow>
     engine_step fetch s (s\<lparr>workers := (workers s)[i := Signalling]\<rparr>)"
| worker_signal:
    "crashed s = None \<Longrightarrow> i < length (workers s) \<Longrightarrow> workers s ! i = Signalling \<Longrightarrow>
     doneChan s < doneCap s \<Longrightarrow>
     engine_step fetch s
       (s\<lparr>doneChan := Suc (doneChan s),
          signalled := (signalled s)[i := Suc (signalled s ! i)],
          workers := (workers s)[i := Exited]\<rparr>)"
| supervisor_receive:
    "crashed s = None \<Longrightarrow> waiting s = Suc n \<Longrightarrow> doneChan s = Suc k \<Longrightarrow>
     engine_step fetch s (s\<lparr>waiting := n, doneChan := k, collected := Suc (collected s)\<rparr>)"
| supervisor_close:
    "crashed s = None \<Longrightarrow> waiting s = 0 \<Longrightarrow> \<not> outClosed s \<Longrightarrow>
     engine_step fetch s (s\<lparr>outClosed := True\<rparr>)"
| consumer_receive:
    "crashed s = None \<Longrightarrow> \<not> finished s \<Longrightarrow> outChan s = v # vs \<Longrightarrow>
     engine_step fetch s (s\<lparr>outChan := vs, received := received s @ [v]\<rparr>)"
| consumer_end:
    "crashed s = None \<Longrightarrow> \<not> finished s \<Longrightarrow> outChan s = [] \<Longrightarrow> outClosed s \<Longrightarrow>
     engine_step fetch s (s\<lparr>finished := True\<rparr>)"

text \<open>
  The work that a state has still to do, as a number that every step makes smaller; the
  values of the fetches that returned an error, which are the ones a worker sends; and
  the facts that hold in every state a batch reaches.
\<close>

fun weight :: "'v worker \<Rightarrow> nat" where
  "weight Ranging = 2"
| "weight (Sending v) = 4"
| "weight Signalling = 1"
| "weight Exited = 0"

fun sending :: "'v worker \<Rightarrow> nat" where
  "sending (Sending v) = 1"
| "sending w = 0"

fun in_hand :: "'v worker \<Rightarrow> 'v option multiset" where
  "in_hand (Sending v) = {#v#}"
| "in_hand w = {#}"

fun exited :: "'v worker \<Rightarrow> nat" where
  "exited Exited = 1"
| "exited w = 0"

fun draining :: "'v worker \<Rightarrow> bool" where
  "draining Signalling = True"
| "draining Exited = True"
| "draining w = False"

definition errored :: "(string \<times> ('v option \<times> error option)) list \<Rightarrow> 'v option list" where
  "errored fs = map (\<lambda>f. fst (snd f)) (filter (\<lambda>f. snd (snd f) \<noteq> None) fs)"

definition remaining_work :: "'v engine \<Rightarrow> nat" where
  "remaining_work s =
     4 * length (pending s) + 3 * length (inChan s) + sum_list (map weight (workers s)) +
     length (outChan s) + waiting s +
     (if inClosed s then 0 else 1) + (if outClosed s then 0 else 1) +
     (if finished s then 0 else 1)"

definition engine_inv :: "'v fetch \<Rightarrow> nat \<Rightarrow> string list \<Rightarrow> 'v engine \<Rightarrow> bool" where
  "engine_inv fetch P subUris s \<longleftrightarrow>
     crashed s = None \<and>
     length (workers s) = P \<and> inCap s = length subUris \<and> outCap s = length subUris \<and>
     doneCap s = P \<and>
     received s @ outChan s = pushed s \<and>
     map fst (fetched s) @ inChan s @ pending s = subUris \<and>
     (\<forall>f\<in>set (fetched s). \<exists>n n'. fetch (fst f) n = (Returned (snd f), n')) \<and>
     mset (pushed s) + sum_list (map in_hand (workers s)) = mset (errored (fetched s)) \<and>
     signalled s = map exited (workers s) \<and>
     collected s + waiting s = P \<and>
     doneChan s + collected s = sum_list (signalled s) \<and>
     (outClosed s \<longrightarrow> waiting s = 0) \<and>
     (inClosed s \<longrightarrow> pending s = []) \<and>
     ((\<exists>w\<in>set (workers s). draining w) \<longrightarrow> inClosed s \<and> inChan s = []) \<and>
     (finished s \<longrightarrow> outClosed s \<and> outChan s = [])"

text \<open>
  What \<^verbatim>\<open>net/http\<close> promises of \<^verbatim>\<open>Client.Do\<close>: a response returned with a nil
  error has a body. And a fetch that returns from every call.
\<close>

definition bodies_present :: "Investigate \<Rightarrow> bool" where
  "bodies_present cl \<longleftrightarrow> (\<forall>n req r. client cl n req = Inr r \<longrightarrow> Body r \<noteq> None)"

definition never_panics :: "'v fetch \<Rightarrow> bool" where
  "never_panics fetch \<longleftrightarrow> (\<forall>u n p n'. fetch u n \<noteq> (Panicked p, n'))"


section \<open>Scripted transports and sample inputs\<close>

text \<open>
  Transports, requests, bodies and decoders on which the properties below are exercised:
  a body and a response with status 200; a transport that always returns an error, one
  that always answers with status 503, and one that returns an error four times and
  answers from then on; and a request.
\<close>

definition sample_body :: ReadCloser where
  "sample_body = \<lparr>unread = ''{}'', read_error = None, closes = 0\<rparr>"

definition ok_response :: response where
  "ok_response = \<lparr>StatusCode = 200, Body = Some sample_body\<rparr>"

definition down_client :: Investigate where
  "down_client =
     \<lparr>client = (\<lambda>n req. Inl (LibraryError ''connection refused'')),
      apikey = ''f29be9cc'', verbose = False\<rparr>"

definition busy_client :: Investigate where
  "busy_client =
     \<lparr>client = (\<lambda>n req. Inr \<lparr>StatusCode = 503, Body = Some sample_body\<rparr>),
      apikey = ''f29be9cc'', verbose = False\<rparr>"

definition flaky_client :: Investigate where
  "flaky_client =
     \<lparr>client = (\<lambda>n req. if n < 4 then Inl (LibraryError ''connection refused'')
                          else Inr ok_response),
      apikey = ''f29be9cc'', verbose = False\<rparr>"

definition sample_request :: request where
  "sample_request =
     \<lparr>Method = ''GET'',
      ReqURL = \<lparr>RawQuery = [], parts = ''https://investigate.api.opendns.com/x''\<rparr>,
      Header = Map.empty\<rparr>"

text \<open>
  A decoder that takes all unread bytes into its buffer and then reports the read error
  of the stream, or a syntax error if the stream ended cleanly, as \<^verbatim>\<open>json.Decoder\<close>
  does on a short body that is not JSON; a body that is not JSON, and a body on a
  connection that breaks.
\<close>

definition rejecting_decoder :: "'v decoder" where
  "rejecting_decoder r =
     (length (unread r),
      Inl (case read_error r of
             Some e \<Rightarrow> e
           | None \<Rightarrow> LibraryError ''invalid character''))"

definition garbled_body :: ReadCloser where
  "garbled_body = \<lparr>unread = ''<html>'', read_error = None, closes = 0\<rparr>"

definition broken_body :: ReadCloser where
  "broken_body =
     \<lparr>unread = ''[1, 2'', read_error = Some (LibraryError ''connection reset''), closes = 0\<rparr>"

text \<open>
  A URL library for strings that consist of a scheme, host and path only; a string with
  a percent sign is refused. A transport that answers every call with status 200.
\<close>

definition plain_urllib :: urllib where
  "plain_urllib =
     \<lparr>url_Parse = (\<lambda>s. if CHR ''%'' \<in> set s then Inl (LibraryError ''invalid URL escape'')
                         else Inr \<lparr>RawQuery = [], parts = s\<rparr>),
      URL_String = (\<lambda>u. parts u @ (if RawQuery u = [] then [] else ''?'' @ RawQuery u))\<rparr>"

definition steady_client :: Investigate where
  "steady_client =
     \<lparr>client = (\<lambda>n req. Inr ok_response), apikey = ''f29be9cc'', verbose = False\<rparr>"

text \<open>
  A transport that answers the request for one IP address and fails every other request,
  and a decoder of the answer.
\<close>

definition partial_client :: Investigate where
  "partial_client =
     \<lparr>client = (\<lambda>n req.
        if parts (ReqURL req) = baseUrl @ ''/dnsdb/ip/a/208.64.121.161.json''
        then Inr ok_response else Inl (LibraryError ''no such host'')),
      apikey = ''f29be9cc'', verbose = False\<rparr>"

definition found_decoder :: "(string \<times> json) list plain_decoder" where
  "found_decoder b = (length (unread b), (Some [(''found'', JBool True)], None))"



section \<open>Properties of the pair-list decoders\<close>

lemma pair_prefixE:
  assumes "pair_prefix x"
  obtains d s rest where "x = JArray (JString d # JNumber s # rest)"
  using assms by (auto elim: pair_prefix.elims)


lemma related_loop_long:
  "related_loop impl e (JArray (a # b # rest) # xs) acc =
     (case a of
        JString d \<Rightarrow>
          (case b of
             JNumber s \<Rightarrow> related_loop impl e xs (acc @ [\<lparr>Domain = d, Score = go_int impl s\<rparr>])
           | _ \<Rightarrow> Error (ErrorString ''Could not convert double[1] to int''))
      | _ \<Rightarrow> Error (ErrorString ''Could not convert double[0] to string''))"
  by (simp split: json.splits)


lemma related_loop_accepts:
  "\<forall>x\<in>set xs. pair_prefix x \<Longrightarrow>
     related_loop impl e xs acc = Ok (acc @ map (to_related impl) xs)"
proof (induction xs arbitrary: acc)
  case Nil
  then show ?case by simp
next
  case (Cons x xs)
  from Cons.prems obtain d s rest where x: "x = JArray (JString d # JNumber s # rest)"
    by (auto elim: pair_prefixE)
  from Cons.prems have "\<forall>y\<in>set xs. pair_prefix y" by simp
  then have "related_loop impl e xs (acc @ [to_related impl x]) =
      Ok ((acc @ [to_related impl x]) @ map (to_related impl) xs)"
    by (rule Cons.IH)
  then show ?case
    unfolding x related_loop_long by (simp add: to_related_def)
qed




















section \<open>Properties of the related-domain and geo-feature decoders\<close>

lemma to_related_pair:
  "to_related impl (JArray [JString d, JNumber s]) =
     \<lparr>Domain = d, Score = (if fits_int s then trunc_toward_zero s else impl s)\<rparr>"
  by (simp add: to_related_def go_int_def)

text \<open>
  Claim C6, as the code has it. For an object whose key \<^verbatim>\<open>tb1\<close> holds an array of
  two-element arrays \<^verbatim>\<open>[string, number]\<close>, \<^verbatim>\<open>RelatedDomainList.UnmarshalJSON\<close>
  yields one record per pair, in the order of the array, with the string as
  \<^verbatim>\<open>Domain\<close> and \<^verbatim>\<open>int(number)\<close> as \<^verbatim>\<open>Score\<close>: the number truncated toward
  zero when that fits the 64-bit \<^verbatim>\<open>int\<close>, and what the implementation makes of the
  conversion otherwise.
\<close>

theorem related_domains_in_order:
  assumes "map_of raw ''tb1'' = Some (JArray (map (\<lambda>(d, s). JArray [JString d, JNumber s]) ps))"
  shows "RelatedDomainList_UnmarshalJSON impl (Inr (JObject raw)) =
     Ok \<lparr>RelatedDomains =
       map (\<lambda>(d, s). \<lparr>Domain = d,
                       Score = (if fits_int s then trunc_toward_zero s else impl s)\<rparr>) ps\<rparr>"
proof -
  let ?xs = "map (\<lambda>(d, s). JArray [JString d, JNumber s]) ps"
  have "\<forall>x\<in>set ?xs. pair_prefix x" by auto
  then have "related_loop impl (MalformedObject (JObject raw)) ?xs [] =
      Ok ([] @ map (to_related impl) ?xs)"
    by (rule related_loop_accepts)
  moreover have "map (to_related impl) ?xs =
      map (\<lambda>(d, s). \<lparr>Domain = d,
                      Score = (if fits_int s then trunc_toward_zero s else impl s)\<rparr>) ps"
    by (auto simp: to_related_pair)
  ultimately show ?thesis
    using assms
    by (simp add: RelatedDomainList_UnmarshalJSON_def json_Unmarshal_map_def map_index_def)
qed

text \<open>
  The theorem at the input \<^verbatim>\<open>{"tb1": [["a.com", 5], ["b.com", 3]]}\<close>, and at an
  input with fractional and negative scores.
\<close>

theorem related_domains_in_order_witness:
  "RelatedDomainList_UnmarshalJSON (\<lambda>s. 0)
     (Inr (JObject [(''tb1'', JArray [JArray [JString ''a.com'', JNumber 5],
                                        JArray [JString ''b.com'', JNumber 3]])])) =
     Ok \<lparr>RelatedDomains = [\<lparr>Domain = ''a.com'', Score = 5\<rparr>, \<lparr>Domain = ''b.com'', Score = 3\<rparr>]\<rparr> \<and>
   RelatedDomainList_UnmarshalJSON (\<lambda>s. 0)
     (Inr (JObject [(''found'', JBool True),
                    (''tb1'', JArray [JArray [JString ''c.com'', JNumber 5.7],
                                        JArray [JString ''d.com'', JNumber (- 2.5)]])])) =
     Ok \<lparr>RelatedDomains = [\<lparr>Domain = ''c.com'', Score = 5\<rparr>, \<lparr>Domain = ''d.com'', Score = - 2\<rparr>]\<rparr>"
proof -
  have 1: "RelatedDomainList_UnmarshalJSON (\<lambda>s. 0)
     (Inr (JObject [(''tb1'', JArray [JArray [JString ''a.com'', JNumber 5],
                                        JArray [JString ''b.com'', JNumber 3]])])) =
     Ok \<lparr>RelatedDomains = [\<lparr>Domain = ''a.com'', Score = 5\<rparr>, \<lparr>Domain = ''b.com'', Score = 3\<rparr>]\<rparr>"
    using related_domains_in_order
      [where raw = "[(''tb1'', JArray [JArray [JString ''a.com'', JNumber 5],
                                        JArray [JString ''b.com'', JNumber 3]])]"
        and ps = "[(''a.com'', 5), (''b.com'', 3)]" and impl = "\<lambda>s. 0"]
    by (simp add: fits_int_def trunc_toward_zero_def)
  have 2: "RelatedDomainList_UnmarshalJSON (\<lambda>s. 0)
     (Inr (JObject [(''found'', JBool True),
                    (''tb1'', JArray [JArray [JString ''c.com'', JNumber 5.7],
                                        JArray [JString ''d.com'', JNumber (- 2.5)]])])) =
     Ok \<lparr>RelatedDomains = [\<lparr>Domain = ''c.com'', Score = 5\<rparr>, \<lparr>Domain = ''d.com'', Score = - 2\<rparr>]\<rparr>"
    using related_domains_in_order
      [where raw = "[(''found'', JBool True),
                     (''tb1'', JArray [JArray [JString ''c.com'', JNumber 5.7],
                                        JArray [JString ''d.com'', JNumber (- 2.5)]])]"
        and ps = "[(''c.com'', 5.7), (''d.com'', - 2.5)]" and impl = "\<lambda>s. 0"]
    by (simp add: fits_int_def trunc_toward_zero_def)
  from 1 2 show ?thesis by (rule conjI)
qed

text \<open>
  Claim C6 as stated has the score truncated for every number. The number \<^verbatim>\<open>1e19\<close> is
  beyond the range of \<^verbatim>\<open>int\<close>: where the conversion yields the smallest
  \<^verbatim>\<open>int\<close>, as on amd64, or the largest, as on arm64, the score is not the truncated
  number.
\<close>

theorem related_domains_range_counterexample:
  "RelatedDomainList_UnmarshalJSON (\<lambda>s. - (2 ^ 63))
     (Inr (JObject [(''tb1'', JArray [JArray [JString ''a.com'', JNumber (10 ^ 19)]])])) =
     Ok \<lparr>RelatedDomains = [\<lparr>Domain = ''a.com'', Score = - (2 ^ 63)\<rparr>]\<rparr> \<and>
   RelatedDomainList_UnmarshalJSON (\<lambda>s. 2 ^ 63 - 1)
     (Inr (JObject [(''tb1'', JArray [JArray [JString ''a.com'', JNumber (10 ^ 19)]])])) =
     Ok \<lparr>RelatedDomains = [\<lparr>Domain = ''a.com'', Score = 2 ^ 63 - 1\<rparr>]\<rparr> \<and>
   trunc_toward_zero (10 ^ 19) = 10 ^ 19 \<and>
   (10 ^ 19 :: int) \<noteq> - (2 ^ 63) \<and> (10 ^ 19 :: int) \<noteq> 2 ^ 63 - 1"
  by (simp add: RelatedDomainList_UnmarshalJSON_def json_Unmarshal_map_def map_index_def
      go_int_def fits_int_def trunc_toward_zero_def)

lemma geo_long:
  "GeoFeatures_UnmarshalJSON (Inr (JArray (a # b # rest))) =
     (case a of
        JString cc \<Rightarrow>
          (case b of
             JNumber vr \<Rightarrow> Ok \<lparr>CountryCode = cc, VisitRatio = vr\<rparr>
           | _ \<Rightarrow> Error (MalformedObject (JArray (a # b # rest))))
      | _ \<Rightarrow> Error (MalformedObject (JArray (a # b # rest))))"
  by (simp add: GeoFeatures_UnmarshalJSON_def split: json.splits)

lemma geo_scalar:
  "\<forall>xs. raw \<noteq> JArray xs \<Longrightarrow> GeoFeatures_UnmarshalJSON (Inr raw) = Error (MalformedObject raw)"
  by (cases raw) (simp_all add: GeoFeatures_UnmarshalJSON_def)

lemma geo_short:
  "GeoFeatures_UnmarshalJSON (Inr (JArray [])) \<noteq> Ok g"
  "GeoFeatures_UnmarshalJSON (Inr (JArray [a])) \<noteq> Ok g"
  by (simp_all add: GeoFeatures_UnmarshalJSON_def Let_def split: json.splits)

lemma geo_accepts_iff:
  "GeoFeatures_UnmarshalJSON (Inr raw) = Ok g \<longleftrightarrow>
     (\<exists>rest. raw = JArray (JString (CountryCode g) # JNumber (VisitRatio g) # rest))"
proof
  assume ok: "GeoFeatures_UnmarshalJSON (Inr raw) = Ok g"
  then have "\<exists>xs. raw = JArray xs"
    using geo_scalar [of raw] by auto
  then obtain xs where raw: "raw = JArray xs" ..
  with ok geo_short obtain a b rest where xs: "xs = a # b # rest"
    by (cases xs; cases "tl xs") auto
  from ok show "\<exists>rest. raw = JArray (JString (CountryCode g) # JNumber (VisitRatio g) # rest)"
    unfolding raw xs geo_long by (cases a; cases b) auto
next
  assume "\<exists>rest. raw = JArray (JString (CountryCode g) # JNumber (VisitRatio g) # rest)"
  then show "GeoFeatures_UnmarshalJSON (Inr raw) = Ok g"
    by (auto simp: geo_long)
qed

text \<open>
  Claim C7, as the code has it. \<^verbatim>\<open>GeoFeatures.UnmarshalJSON\<close> succeeds exactly on
  the arrays whose element 0 is a string and whose element 1 is a number, whatever
  follows them, and the record holds these two values. It fails with the malformed-object
  error on a value that is not an array and on an array of at least two elements whose
  element 0 is not a string or whose element 1 is not a number. So
  \<^verbatim>\<open>["US", 0.42]\<close> is decoded and \<^verbatim>\<open>[42, "US"]\<close> is rejected.
\<close>

theorem geo_features_decoder:
  "(GeoFeatures_UnmarshalJSON (Inr raw) = Ok g \<longleftrightarrow>
      (\<exists>rest. raw = JArray (JString (CountryCode g) # JNumber (VisitRatio g) # rest))) \<and>
   ((\<forall>xs. raw \<noteq> JArray xs) \<longrightarrow>
      GeoFeatures_UnmarshalJSON (Inr raw) = Error (MalformedObject raw)) \<and>
   (raw = JArray (a # b # rest) \<and> ((\<forall>cc. a \<noteq> JString cc) \<or> (\<forall>vr. b \<noteq> JNumber vr)) \<longrightarrow>
      GeoFeatures_UnmarshalJSON (Inr raw) = Error (MalformedObject raw)) \<and>
   GeoFeatures_UnmarshalJSON (Inr (JArray [JString ''US'', JNumber 0.42])) =
      Ok \<lparr>CountryCode = ''US'', VisitRatio = 0.42\<rparr> \<and>
   GeoFeatures_UnmarshalJSON (Inr (JArray [JNumber 42, JString ''US''])) =
      Error (MalformedObject (JArray [JNumber 42, JString ''US'']))"
proof (intro conjI impI)
  show "GeoFeatures_UnmarshalJSON (Inr raw) = Ok g \<longleftrightarrow>
      (\<exists>rest. raw = JArray (JString (CountryCode g) # JNumber (VisitRatio g) # rest))"
    by (rule geo_accepts_iff)
next
  assume "\<forall>xs. raw \<noteq> JArray xs"
  then show "GeoFeatures_UnmarshalJSON (Inr raw) = Error (MalformedObject raw)"
    by (rule geo_scalar)
next
  assume "raw = JArray (a # b # rest) \<and> ((\<forall>cc. a \<noteq> JString cc) \<or> (\<forall>vr. b \<noteq> JNumber vr))"
  then show "GeoFeatures_UnmarshalJSON (Inr raw) = Error (MalformedObject raw)"
    by (cases a; cases b) (auto simp: geo_long)
next
  show "GeoFeatures_UnmarshalJSON (Inr (JArray [JString ''US'', JNumber 0.42])) =
      Ok \<lparr>CountryCode = ''US'', VisitRatio = 0.42\<rparr>"
    by (simp add: geo_long)
next
  show "GeoFeatures_UnmarshalJSON (Inr (JArray [JNumber 42, JString ''US''])) =
      Error (MalformedObject (JArray [JNumber 42, JString ''US'']))"
    by (simp add: geo_long)
qed

text \<open>The theorem at a string, at a pair with a null ratio and at a well-formed pair.\<close>

theorem geo_features_decoder_witness:
  "GeoFeatures_UnmarshalJSON (Inr (JString ''US'')) = Error (MalformedObject (JString ''US'')) \<and>
   GeoFeatures_UnmarshalJSON (Inr (JArray [JString ''US'', JNull])) =
     Error (MalformedObject (JArray [JString ''US'', JNull])) \<and>
   GeoFeatures_UnmarshalJSON (Inr (JArray [JString ''FR'', JNumber 1])) =
     Ok \<lparr>CountryCode = ''FR'', VisitRatio = 1\<rparr>"
proof -
  have 1: "GeoFeatures_UnmarshalJSON (Inr (JString ''US'')) = Error (MalformedObject (JString ''US''))"
    using geo_features_decoder [where raw = "JString ''US''"] by simp
  have 2: "GeoFeatures_UnmarshalJSON (Inr (JArray [JString ''US'', JNull])) =
     Error (MalformedObject (JArray [JString ''US'', JNull]))"
    using geo_features_decoder
      [where raw = "JArray [JString ''US'', JNull]" and a = "JString ''US''" and b = JNull
        and rest = "[]"]
    by simp
  have 3: "GeoFeatures_UnmarshalJSON (Inr (JArray [JString ''FR'', JNumber 1])) =
     Ok \<lparr>CountryCode = ''FR'', VisitRatio = 1\<rparr>"
    using geo_features_decoder
      [where raw = "JArray [JString ''FR'', JNumber 1]"
        and g = "\<lparr>CountryCode = ''FR'', VisitRatio = 1\<rparr>"]
    by simp
  from 1 2 3 show ?thesis by blast
qed

text \<open>
  Claim C7 as stated has the decoder accept two-element arrays only. An array of three
  elements is accepted, and an array of fewer than two elements makes the slice read
  panic.
\<close>

theorem geo_features_arity_counterexample:
  "GeoFeatures_UnmarshalJSON (Inr (JArray [JString ''US'', JNumber 0.42, JNull])) =
     Ok \<lparr>CountryCode = ''US'', VisitRatio = 0.42\<rparr> \<and>
   GeoFeatures_UnmarshalJSON (Inr (JArray [JString ''US''])) = Panic (IndexOutOfRange 1 1) \<and>
   GeoFeatures_UnmarshalJSON (Inr (JArray [])) = Panic (IndexOutOfRange 0 0)"
  by (simp add: GeoFeatures_UnmarshalJSON_def)


section \<open>Properties of the transport\<close>

lemma Request_loop_retry:
  assumes "Body resp = None" and "tries < maxTries - 1"
    and "failing (client cl (length net) req)"
  shows "Request_loop cl req resp err tries net =
     Request_loop cl req new_Response (last_error (client cl (length net) req)) (Suc tries)
       (net @ [req])"
  using assms
  by (subst Request_loop.simps)
    (auto simp: client_Do_def failing_def last_error_def maxTries_def split: sum.splits)

lemma Request_loop_give_up:
  assumes "Body resp = None" and "tries = maxTries - 1"
    and "failing (client cl (length net) req)"
  shows "Request_loop cl req resp err tries net =
     ((None, Some (FailedAllAttempts (last_error (client cl (length net) req)))), net @ [req])"
  using assms
  by (subst Request_loop.simps)
    (auto simp: client_Do_def failing_def last_error_def maxTries_def split: sum.splits)

lemma Request_loop_success:
  assumes "Body resp = None" and "tries < maxTries"
    and "client cl (length net) req = Inr r" and "StatusCode r < 300" and "Body r \<noteq> None"
  shows "Request_loop cl req resp err tries net = ((Some r, None), net @ [req])"
proof -
  have "Request_loop cl req resp err tries net =
      Request_loop cl req r None (Suc tries) (net @ [req])"
    using assms by (subst Request_loop.simps) (simp add: client_Do_def)
  also have "\<dots> = ((Some r, None), net @ [req])"
    using assms(5) by (subst Request_loop.simps) auto
  finally show ?thesis .
qed

lemma Request_plain_loop_retry:
  assumes "Body resp = None" and "tries < maxTries - 1"
    and "client cl (length net) req = Inl e"
  shows "Request_plain_loop cl req resp err tries net =
     Request_plain_loop cl req new_Response (Some e) (Suc tries) (net @ [req])"
  using assms
  by (subst Request_plain_loop.simps) (auto simp: client_Do_def maxTries_def)

lemma Request_plain_loop_give_up:
  assumes "Body resp = None" and "tries = maxTries - 1"
    and "client cl (length net) req = Inl e"
  shows "Request_plain_loop cl req resp err tries net =
     ((None, Some (FailedAllAttempts (Some e))), net @ [req])"
  using assms
  by (subst Request_plain_loop.simps) (auto simp: client_Do_def maxTries_def)

lemma Request_plain_loop_success:
  assumes "Body resp = None" and "tries < maxTries"
    and "client cl (length net) req = Inr r" and "Body r \<noteq> None"
  shows "Request_plain_loop cl req resp err tries net = ((Some r, None), net @ [req])"
proof -
  have "Request_plain_loop cl req resp err tries net =
      Request_plain_loop cl req r None (Suc tries) (net @ [req])"
    using assms by (subst Request_plain_loop.simps) (simp add: client_Do_def)
  also have "\<dots> = ((Some r, None), net @ [req])"
    using assms(4) by (subst Request_plain_loop.simps) auto
  finally show ?thesis .
qed

lemma Request_loop_retries:
  assumes "Body resp = None" and "0 < k" and "tries + k < maxTries"
    and "\<forall>i<k. failing (client cl (length net + i) req)"
  shows "Request_loop cl req resp err tries net =
     Request_loop cl req new_Response (last_error (client cl (length net + k - 1) req))
       (tries + k) (net @ replicate k req)"
  using assms
proof (induction k arbitrary: resp err tries net)
  case 0
  then show ?case by simp
next
  case (Suc k)
  from Suc.prems(4) have first: "failing (client cl (length net) req)" by force
  from Suc.prems(3) have "tries < maxTries - 1" by simp
  with Suc.prems(1)
  have one: "Request_loop cl req resp err tries net =
      Request_loop cl req new_Response (last_error (client cl (length net) req)) (Suc tries)
        (net @ [req])"
    using first by (rule Request_loop_retry)
  show ?case
  proof (cases "k = 0")
    case True
    with one show ?thesis by simp
  next
    case False
    have "\<forall>i<k. failing (client cl (length (net @ [req]) + i) req)"
    proof (intro allI impI)
      fix i assume "i < k"
      then have "failing (client cl (length net + Suc i) req)"
        using Suc.prems(4) [rule_format, of "Suc i"] by simp
      then show "failing (client cl (length (net @ [req]) + i) req)" by simp
    qed
    with False Suc.prems(3)
    have "Request_loop cl req new_Response (last_error (client cl (length net) req)) (Suc tries)
        (net @ [req]) =
      Request_loop cl req new_Response
        (last_error (client cl (length (net @ [req]) + k - 1) req)) (Suc tries + k)
        ((net @ [req]) @ replicate k req)"
      by (intro Suc.IH) (simp_all add: new_Response_def)
    with one False show ?thesis by (simp add: replicate_app_Cons_same)
  qed
qed

lemma Request_plain_loop_retries:
  assumes "Body resp = None" and "0 < k" and "tries + k < maxTries"
    and "\<forall>i<k. isl (client cl (length net + i) req)"
  shows "Request_plain_loop cl req resp err tries net =
     Request_plain_loop cl req new_Response (last_error (client cl (length net + k - 1) req))
       (tries + k) (net @ replicate k req)"
  using assms
proof (induction k arbitrary: resp err tries net)
  case 0
  then show ?case by simp
next
  case (Suc k)
  from Suc.prems(4) have "isl (client cl (length net) req)" by force
  then obtain e where first: "client cl (length net) req = Inl e"
    by (cases "client cl (length net) req") auto
  from Suc.prems(3) have "tries < maxTries - 1" by simp
  with Suc.prems(1) first
  have "Request_plain_loop cl req resp err tries net =
      Request_plain_loop cl req new_Response (Some e) (Suc tries) (net @ [req])"
    by (intro Request_plain_loop_retry)
  with first
  have one: "Request_plain_loop cl req resp err tries net =
      Request_plain_loop cl req new_Response (last_error (client cl (length net) req)) (Suc tries)
        (net @ [req])"
    by (simp add: last_error_def)
  show ?case
  proof (cases "k = 0")
    case True
    with one show ?thesis by simp
  next
    case False
    have "\<forall>i<k. isl (client cl (length (net @ [req]) + i) req)"
    proof (intro allI impI)
      fix i assume "i < k"
      then have "isl (client cl (length net + Suc i) req)"
        using Suc.prems(4) [rule_format, of "Suc i"] by simp
      then show "isl (client cl (length (net @ [req]) + i) req)" by simp
    qed
    with False Suc.prems(3)
    have "Request_plain_loop cl req new_Response (last_error (client cl (length net) req))
        (Suc tries) (net @ [req]) =
      Request_plain_loop cl req new_Response
        (last_error (client cl (length (net @ [req]) + k - 1) req)) (Suc tries + k)
        ((net @ [req]) @ replicate k req)"
      by (intro Suc.IH) (simp_all add: new_Response_def)
    with one False show ?thesis by (simp add: replicate_app_Cons_same)
  qed
qed

lemma Request_all_fail:
  assumes "\<forall>i<5. failing (client cl (length net + i) (set_Authorization cl req))"
  shows "Request cl req net =
     ((None, Some (FailedAllAttempts
        (last_error (client cl (length net + 4) (set_Authorization cl req))))),
      net @ replicate 5 (set_Authorization cl req))"
proof -
  let ?rq = "set_Authorization cl req"
  have "Request cl req net = Request_loop cl ?rq new_Response None 0 net"
    by (simp add: Request_def)
  also have "\<dots> = Request_loop cl ?rq new_Response
      (last_error (client cl (length net + 4 - 1) ?rq)) (0 + 4) (net @ replicate 4 ?rq)"
    using assms by (intro Request_loop_retries) (simp_all add: new_Response_def maxTries_def)
  also have "\<dots> = ((None, Some (FailedAllAttempts
      (last_error (client cl (length (net @ replicate 4 ?rq)) ?rq)))),
      (net @ replicate 4 ?rq) @ [?rq])"
    using assms by (intro Request_loop_give_up) (simp_all add: new_Response_def maxTries_def)
  finally show ?thesis by (simp add: numeral_eq_Suc replicate_append_same)
qed

lemma Request_fifth_succeeds:
  assumes "\<forall>i<4. failing (client cl (length net + i) (set_Authorization cl req))"
    and "client cl (length net + 4) (set_Authorization cl req) = Inr r"
    and "Body r \<noteq> None" and "StatusCode r < 300"
  shows "Request cl req net = ((Some r, None), net @ replicate 5 (set_Authorization cl req))"
proof -
  let ?rq = "set_Authorization cl req"
  have "Request cl req net = Request_loop cl ?rq new_Response None 0 net"
    by (simp add: Request_def)
  also have "\<dots> = Request_loop cl ?rq new_Response
      (last_error (client cl (length net + 4 - 1) ?rq)) (0 + 4) (net @ replicate 4 ?rq)"
    using assms(1) by (intro Request_loop_retries) (simp_all add: new_Response_def maxTries_def)
  also have "\<dots> = ((Some r, None), (net @ replicate 4 ?rq) @ [?rq])"
    using assms(2-4) by (intro Request_loop_success) (simp_all add: new_Response_def maxTries_def)
  finally show ?thesis by (simp add: numeral_eq_Suc replicate_append_same)
qed

lemma Request_plain_all_fail:
  assumes "\<forall>i<5. isl (client cl (length net + i) (set_Authorization cl req))"
  shows "Request_plain cl req net =
     ((None, Some (FailedAllAttempts
        (last_error (client cl (length net + 4) (set_Authorization cl req))))),
      net @ replicate 5 (set_Authorization cl req))"
proof -
  let ?rq = "set_Authorization cl req"
  from assms have "isl (client cl (length net + 4) ?rq)" by simp
  then obtain e where e: "client cl (length net + 4) ?rq = Inl e"
    by (cases "client cl (length net + 4) ?rq") auto
  have "Request_plain cl req net = Request_plain_loop cl ?rq new_Response None 0 net"
    by (simp add: Request_plain_def)
  also have "\<dots> = Request_plain_loop cl ?rq new_Response
      (last_error (client cl (length net + 4 - 1) ?rq)) (0 + 4) (net @ replicate 4 ?rq)"
    using assms by (intro Request_plain_loop_retries) (simp_all add: new_Response_def maxTries_def)
  also have "\<dots> = ((None, Some (FailedAllAttempts (Some e))), (net @ replicate 4 ?rq) @ [?rq])"
    using e by (intro Request_plain_loop_give_up) (simp_all add: new_Response_def maxTries_def)
  finally show ?thesis using e by (simp add: numeral_eq_Suc replicate_append_same last_error_def)
qed

lemma Request_plain_fifth_succeeds:
  assumes "\<forall>i<4. isl (client cl (length net + i) (set_Authorization cl req))"
    and "client cl (length net + 4) (set_Authorization cl req) = Inr r"
    and "Body r \<noteq> None"
  shows "Request_plain cl req net =
     ((Some r, None), net @ replicate 5 (set_Authorization cl req))"
proof -
  let ?rq = "set_Authorization cl req"
  have "Request_plain cl req net = Request_plain_loop cl ?rq new_Response None 0 net"
    by (simp add: Request_plain_def)
  also have "\<dots> = Request_plain_loop cl ?rq new_Response
      (last_error (client cl (length net + 4 - 1) ?rq)) (0 + 4) (net @ replicate 4 ?rq)"
    using assms(1)
    by (intro Request_plain_loop_retries) (simp_all add: new_Response_def maxTries_def)
  also have "\<dots> = ((Some r, None), (net @ replicate 4 ?rq) @ [?rq])"
    using assms(2,3)
    by (intro Request_plain_loop_success) (simp_all add: new_Response_def maxTries_def)
  finally show ?thesis by (simp add: numeral_eq_Suc replicate_append_same)
qed

text \<open>
  Claim C3. When the transport fails on each of the five calls that follow (an error, or
  in \<^verbatim>\<open>goinvestigate.go\<close> also a status of 300 or more), \<^verbatim>\<open>Request\<close> makes exactly
  five calls and returns a nil response with the error built around the error of the
  fifth call. When the transport fails on four calls and then answers with a body and a
  status below 300, \<^verbatim>\<open>Request\<close> returns that response and a nil error, again after
  exactly five calls. Both hold for the retry loop of \<^verbatim>\<open>goinvestigate.go\<close> and for
  the one that looks at transport errors only.
\<close>

theorem Request_five_attempts:
  "((\<forall>i<5. failing (client cl (length net + i) (set_Authorization cl req))) \<longrightarrow>
      Request cl req net =
        ((None, Some (FailedAllAttempts
           (last_error (client cl (length net + 4) (set_Authorization cl req))))),
         net @ replicate 5 (set_Authorization cl req))) \<and>
   ((\<forall>i<4. failing (client cl (length net + i) (set_Authorization cl req))) \<and>
    client cl (length net + 4) (set_Authorization cl req) = Inr r \<and>
    Body r \<noteq> None \<and> StatusCode r < 300 \<longrightarrow>
      Request cl req net = ((Some r, None), net @ replicate 5 (set_Authorization cl req))) \<and>
   ((\<forall>i<5. isl (client cl (length net + i) (set_Authorization cl req))) \<longrightarrow>
      Request_plain cl req net =
        ((None, Some (FailedAllAttempts
           (last_error (client cl (length net + 4) (set_Authorization cl req))))),
         net @ replicate 5 (set_Authorization cl req))) \<and>
   ((\<forall>i<4. isl (client cl (length net + i) (set_Authorization cl req))) \<and>
    client cl (length net + 4) (set_Authorization cl req) = Inr r \<and>
    Body r \<noteq> None \<and> StatusCode r < 300 \<longrightarrow>
      Request_plain cl req net =
        ((Some r, None), net @ replicate 5 (set_Authorization cl req)))"
  using Request_all_fail [of cl net req] Request_fifth_succeeds [of cl net req r]
    Request_plain_all_fail [of cl net req] Request_plain_fifth_succeeds [of cl net req r]
  by blast

text \<open>
  The theorem on three scripted transports: one that always returns an error, one that
  always answers with status 503, and one that returns an error four times and then
  answers with status 200 and a body.
\<close>

theorem Request_five_attempts_witness:
  "Request down_client sample_request [] =
     ((None, Some (FailedAllAttempts (Some (LibraryError ''connection refused'')))),
      replicate 5 (set_Authorization down_client sample_request)) \<and>
   Request busy_client sample_request [] =
     ((None, Some (FailedAllAttempts None)),
      replicate 5 (set_Authorization busy_client sample_request)) \<and>
   Request flaky_client sample_request [] =
     ((Some ok_response, None), replicate 5 (set_Authorization flaky_client sample_request)) \<and>
   Request_plain down_client sample_request [] =
     ((None, Some (FailedAllAttempts (Some (LibraryError ''connection refused'')))),
      replicate 5 (set_Authorization down_client sample_request)) \<and>
   Request_plain flaky_client sample_request [] =
     ((Some ok_response, None), replicate 5 (set_Authorization flaky_client sample_request))"
proof -
  have down: "client down_client n rq = Inl (LibraryError ''connection refused'')" for n rq
    by (simp add: down_client_def)
  have busy: "client busy_client n rq = Inr \<lparr>StatusCode = 503, Body = Some sample_body\<rparr>" for n rq
    by (simp add: busy_client_def)
  have flaky: "client flaky_client n rq =
      (if n < 4 then Inl (LibraryError ''connection refused'') else Inr ok_response)" for n rq
    by (simp add: flaky_client_def)
  have 1: "Request down_client sample_request [] =
     ((None, Some (FailedAllAttempts (Some (LibraryError ''connection refused'')))),
      replicate 5 (set_Authorization down_client sample_request))"
    using Request_five_attempts [of down_client "[]" sample_request ok_response]
    by (simp add: down failing_def last_error_def)
  have 2: "Request busy_client sample_request [] =
     ((None, Some (FailedAllAttempts None)),
      replicate 5 (set_Authorization busy_client sample_request))"
    using Request_five_attempts [of busy_client "[]" sample_request ok_response]
    by (simp add: busy failing_def last_error_def)
  have 3: "Request flaky_client sample_request [] =
     ((Some ok_response, None), replicate 5 (set_Authorization flaky_client sample_request))"
    using Request_five_attempts [of flaky_client "[]" sample_request ok_response]
    by (simp add: flaky failing_def ok_response_def)
  have 4: "Request_plain down_client sample_request [] =
     ((None, Some (FailedAllAttempts (Some (LibraryError ''connection refused'')))),
      replicate 5 (set_Authorization down_client sample_request))"
    using Request_five_attempts [of down_client "[]" sample_request ok_response]
    by (simp add: down last_error_def)
  have 5: "Request_plain flaky_client sample_request [] =
     ((Some ok_response, None), replicate 5 (set_Authorization flaky_client sample_request))"
    using Request_five_attempts [of flaky_client "[]" sample_request ok_response]
    by (simp add: flaky ok_response_def)
  from 1 2 3 4 5 show ?thesis by blast
qed


section \<open>Properties of the response decoder\<close>

lemma parseBody_closes: "closes (snd (parseBody target respBody)) = Suc (closes respBody)"
  by (simp add: parseBody_def json_Decode_def ioutil_ReadAll_def Close_def
      split: option.splits prod.splits sum.splits)

lemma parseBody_decoded:
  "d respBody = (n, Inr v) \<Longrightarrow> fst (parseBody (Some d) respBody) = Inr v"
  by (simp add: parseBody_def json_Decode_def)

lemma parseBody_failed:
  "d respBody = (n, Inl err) \<Longrightarrow> read_error respBody = None \<Longrightarrow>
     fst (parseBody (Some d) respBody) = Inl (JSONDecodeError err (drop n (unread respBody)))"
  by (simp add: parseBody_def json_Decode_def ioutil_ReadAll_def)

lemma parseBody_unreadable:
  "d respBody = (n, Inl err) \<Longrightarrow> read_error respBody = Some readErr \<Longrightarrow>
     fst (parseBody (Some d) respBody) = Inl err"
  by (simp add: parseBody_def json_Decode_def ioutil_ReadAll_def)

lemma parseBody_unsupported:
  "read_error respBody = None \<Longrightarrow>
     fst (parseBody None respBody) =
       Inl (JSONDecodeError (ErrorString ''type of v is unsupported'') (unread respBody))"
  by (simp add: parseBody_def ioutil_ReadAll_def)

text \<open>
  Claim C8, as the code has it. \<^verbatim>\<open>parseBody\<close> closes the stream exactly once on every
  path. When decoding succeeds it returns the value. When decoding fails and the rest of
  the stream can be read, it returns a \<^verbatim>\<open>JSONDecodeError\<close> that carries the parse
  error, and its \<^verbatim>\<open>Body\<close> is the whole body when the decoder took no byte from the
  stream (as for an unsupported type of \<open>v\<close>). When decoding fails and reading the rest
  of the stream fails too, it returns the parse error alone.
\<close>

theorem parseBody_contract:
  "closes (snd (parseBody target respBody)) = Suc (closes respBody) \<and>
   (target = Some d \<and> d respBody = (n, Inr v) \<longrightarrow>
      fst (parseBody target respBody) = Inr v) \<and>
   (target = Some d \<and> d respBody = (n, Inl err) \<and> read_error respBody = None \<longrightarrow>
      (\<exists>body. fst (parseBody target respBody) = Inl (JSONDecodeError err body)) \<and>
      (n = 0 \<longrightarrow>
         fst (parseBody target respBody) = Inl (JSONDecodeError err (unread respBody)))) \<and>
   (target = Some d \<and> d respBody = (n, Inl err) \<and> read_error respBody = Some readErr \<longrightarrow>
      fst (parseBody target respBody) = Inl err) \<and>
   (target = None \<and> read_error respBody = None \<longrightarrow>
      fst (parseBody target respBody) =
        Inl (JSONDecodeError (ErrorString ''type of v is unsupported'') (unread respBody)))"
  using parseBody_closes [of target respBody] parseBody_decoded [of d respBody n v]
    parseBody_failed [of d respBody n err] parseBody_unreadable [of d respBody n err readErr]
    parseBody_unsupported [of respBody]
  by auto

text \<open>
  The theorem on a body that is not JSON: with a type that is not supported the error
  carries the whole body, and the stream is closed once.
\<close>

theorem parseBody_contract_witness:
  "fst (parseBody (None :: json decoder option) garbled_body) =
     Inl (JSONDecodeError (ErrorString ''type of v is unsupported'') ''<html>'') \<and>
   closes (snd (parseBody (None :: json decoder option) garbled_body)) = 1 \<and>
   (\<exists>body. fst (parseBody (Some (rejecting_decoder :: json decoder)) garbled_body) =
      Inl (JSONDecodeError (LibraryError ''invalid character'') body)) \<and>
   fst (parseBody (Some (\<lambda>r. (2, Inr (JObject [])))) sample_body) = Inr (JObject [])"
proof -
  have 1: "fst (parseBody (None :: json decoder option) garbled_body) =
     Inl (JSONDecodeError (ErrorString ''type of v is unsupported'') ''<html>'') \<and>
     closes (snd (parseBody (None :: json decoder option) garbled_body)) = 1"
    using parseBody_contract [where target = "None :: json decoder option"
        and respBody = garbled_body and d = rejecting_decoder and n = 0
        and err = "LibraryError []" and readErr = "LibraryError []" and v = JNull]
    by (simp add: garbled_body_def)
  have 2: "\<exists>body. fst (parseBody (Some (rejecting_decoder :: json decoder)) garbled_body) =
      Inl (JSONDecodeError (LibraryError ''invalid character'') body)"
    using parseBody_contract [where target = "Some (rejecting_decoder :: json decoder)"
        and respBody = garbled_body and d = rejecting_decoder and n = 6
        and err = "LibraryError ''invalid character''" and readErr = "LibraryError []"
        and v = JNull]
    by (simp add: garbled_body_def rejecting_decoder_def)
  have 3: "fst (parseBody (Some (\<lambda>r. (2, Inr (JObject [])))) sample_body) = Inr (JObject [])"
    using parseBody_contract [where target = "Some (\<lambda>r. (2, Inr (JObject [])))"
        and respBody = sample_body and d = "\<lambda>r. (2, Inr (JObject []))" and n = 2
        and err = "LibraryError []" and readErr = "LibraryError []" and v = "JObject []"]
    by simp
  from 1 2 3 show ?thesis by blast
qed

text \<open>
  Claim C8 as stated has every decode failure return an error that carries the parse
  error and the bytes of the body. On a stream that cannot be read to its end the parse
  error is returned bare; and on a short body that is not JSON the decoder has taken
  every byte, so the \<^verbatim>\<open>Body\<close> of the error is empty, not the body.
\<close>

theorem parseBody_body_counterexample:
  "fst (parseBody (Some (rejecting_decoder :: json decoder)) broken_body) =
     Inl (LibraryError ''connection reset'') \<and>
   fst (parseBody (Some (rejecting_decoder :: json decoder)) garbled_body) =
     Inl (JSONDecodeError (LibraryError ''invalid character'') []) \<and>
   unread garbled_body = ''<html>''"
  by (simp add: parseBody_def json_Decode_def ioutil_ReadAll_def rejecting_decoder_def
      broken_body_def garbled_body_def)


section \<open>Properties of the categorization operation\<close>

lemma Sprintf_categorization:
  "Sprintf (urls_at ''categorization'') [domain] = ''/domains/categorization/'' @ domain"
  by (simp add: urls_at_def urls_def extra_args_def)

lemma Values_Encode_showLabels:
  "Values_Encode (Values_Set [] ''showLabels'' ''true'') = ''showLabels=true''"
  by (simp add: Values_Encode_def Values_Set_def encode_key_def QueryEscape_def escape_byte_def
      is_alnum_def)

lemma Values_Encode_empty: "Values_Encode [] = []"
  by (simp add: Values_Encode_def)

lemma catUri_parsed:
  assumes "url_Parse lib (''/domains/categorization/'' @ domain) = Inr uri"
  shows "catUri lib domain labels =
     Returned (URL_String lib (uri\<lparr>RawQuery := (if labels then ''showLabels=true'' else [])\<rparr>))"
  using assms
  by (simp add: catUri_def Sprintf_categorization Values_Encode_showLabels Values_Encode_empty)

lemma catUri_fatal:
  assumes "url_Parse lib (''/domains/categorization/'' @ domain) = Inl err"
  shows "catUri lib domain labels = Panicked (LogFatal err)"
  using assms by (simp add: catUri_def Sprintf_categorization)

text \<open>
  Claim C9. \<^verbatim>\<open>catUri\<close> parses the path template with the domain substituted,
  \<^verbatim>\<open>/domains/categorization/{domain}\<close>, and renders the parsed URL with its query
  string replaced: \<^verbatim>\<open>showLabels=true\<close> when \<open>labels\<close> is true, the empty query string
  when it is false. When the library renders the URL as the path followed by
  \<^verbatim>\<open>?\<close> and the query string if there is one, the result is the path alone for
  \<open>labels\<close> false and the path with \<^verbatim>\<open>?showLabels=true\<close> for \<open>labels\<close> true. A
  string that \<^verbatim>\<open>url.Parse\<close> refuses ends the process in \<^verbatim>\<open>log.Fatal\<close>.
\<close>

theorem catUri_showLabels:
  "(url_Parse lib (''/domains/categorization/'' @ domain) = Inr uri \<longrightarrow>
      catUri lib domain True = Returned (URL_String lib (uri\<lparr>RawQuery := ''showLabels=true''\<rparr>)) \<and>
      catUri lib domain False = Returned (URL_String lib (uri\<lparr>RawQuery := []\<rparr>))) \<and>
   (url_Parse lib (''/domains/categorization/'' @ domain) = Inr uri \<and>
    (\<forall>q. URL_String lib (uri\<lparr>RawQuery := q\<rparr>) =
       ''/domains/categorization/'' @ domain @ (if q = [] then [] else ''?'' @ q)) \<longrightarrow>
      catUri lib domain labels =
        Returned (''/domains/categorization/'' @ domain @
          (if labels then ''?showLabels=true'' else []))) \<and>
   (url_Parse lib (''/domains/categorization/'' @ domain) = Inl err \<longrightarrow>
      catUri lib domain labels = Panicked (LogFatal err))"
  using catUri_parsed [of lib domain uri] catUri_fatal [of lib domain err]
  by auto

text \<open>The theorem for the domain \<^verbatim>\<open>www.amazon.com\<close>, with and without labels.\<close>

theorem catUri_showLabels_witness:
  "catUri plain_urllib ''www.amazon.com'' True =
     Returned ''/domains/categorization/www.amazon.com?showLabels=true'' \<and>
   catUri plain_urllib ''www.amazon.com'' False =
     Returned ''/domains/categorization/www.amazon.com'' \<and>
   catUri plain_urllib ''100%'' True = Panicked (LogFatal (LibraryError ''invalid URL escape''))"
proof -
  let ?u = "\<lparr>RawQuery = [], parts = ''/domains/categorization/www.amazon.com''\<rparr>"
  have 1: "catUri plain_urllib ''www.amazon.com'' True =
     Returned ''/domains/categorization/www.amazon.com?showLabels=true''"
    using catUri_showLabels [where lib = plain_urllib and domain = "''www.amazon.com''"
        and uri = ?u and labels = True and err = "LibraryError []"]
    by (simp add: plain_urllib_def)
  have 2: "catUri plain_urllib ''www.amazon.com'' False =
     Returned ''/domains/categorization/www.amazon.com''"
    using catUri_showLabels [where lib = plain_urllib and domain = "''www.amazon.com''"
        and uri = ?u and labels = False and err = "LibraryError []"]
    by (simp add: plain_urllib_def)
  have 3: "catUri plain_urllib ''100%'' True =
     Panicked (LogFatal (LibraryError ''invalid URL escape''))"
    using catUri_showLabels [where lib = plain_urllib and domain = "''100%''"
        and uri = ?u and labels = True and err = "LibraryError ''invalid URL escape''"]
    by (simp add: plain_urllib_def)
  from 1 2 3 show ?thesis by blast
qed

lemma GetParse_Ok_iff:
  "GetParse lib cl subUri target net = (Ok v, net') \<longleftrightarrow>
     (\<exists>r body. Get lib cl subUri net = ((Some r, None), net') \<and> Body r = Some body \<and>
        fst (parseBody target body) = Inr v)"
  by (auto simp: GetParse_def split: prod.splits option.splits sum.splits)

lemma Categorization_Ok_iff:
  "(\<exists>cat. fst (Categorization lib cl d domain labels net) = Ok cat) \<longleftrightarrow>
     (\<exists>uri resp net'. catUri lib domain labels = Returned uri \<and>
        GetParse lib cl uri (Some d) net = (Ok resp, net') \<and> domain \<in> dom resp)"
  by (auto simp: Categorization_def split: outcome.splits prod.splits result.splits option.splits)

lemma Categorization_missing_key:
  assumes "catUri lib domain labels = Returned uri"
    and "GetParse lib cl uri (Some d) net = (Ok resp, net')"
    and "resp domain = None"
  shows "Categorization lib cl d domain labels net =
     (Error (ErrorString ''received a malformed response body''), net')"
  using assms by (simp add: Categorization_def)

lemma Categorization_present_key:
  assumes "catUri lib domain labels = Returned uri"
    and "GetParse lib cl uri (Some d) net = (Ok resp, net')"
    and "resp domain = Some cat"
  shows "Categorization lib cl d domain labels net = (Ok cat, net')"
  using assms by (simp add: Categorization_def)

text \<open>
  Claim C10. When the response to the categorization request decodes into a map that has
  no entry for the requested domain, \<^verbatim>\<open>Categorization\<close> returns nil and the error
  \<^verbatim>\<open>received a malformed response body\<close>; when the map has an entry, it returns that
  entry. It returns a record exactly when the URI was built, the request returned a
  response with a body, the body decoded, and the decoded map has the domain as a key.
\<close>

theorem Categorization_domain_key:
  "(catUri lib domain labels = Returned uri \<and>
    Get lib cl uri net = ((Some r, None), net') \<and> Body r = Some body \<and>
    fst (parseBody (Some d) body) = Inr resp \<longrightarrow>
      (resp domain = None \<longrightarrow>
         Categorization lib cl d domain labels net =
           (Error (ErrorString ''received a malformed response body''), net')) \<and>
      (\<forall>cat. resp domain = Some cat \<longrightarrow>
         Categorization lib cl d domain labels net = (Ok cat, net'))) \<and>
   ((\<exists>cat. fst (Categorization lib cl d domain labels net) = Ok cat) \<longleftrightarrow>
      (\<exists>uri r body resp net'. catUri lib domain labels = Returned uri \<and>
         Get lib cl uri net = ((Some r, None), net') \<and> Body r = Some body \<and>
         fst (parseBody (Some d) body) = Inr resp \<and> domain \<in> dom resp))"
proof (intro conjI impI allI)
  assume a: "catUri lib domain labels = Returned uri \<and>
    Get lib cl uri net = ((Some r, None), net') \<and> Body r = Some body \<and>
    fst (parseBody (Some d) body) = Inr resp"
  then have g: "GetParse lib cl uri (Some d) net = (Ok resp, net')"
    unfolding GetParse_Ok_iff by blast
  {
    assume "resp domain = None"
    with a g show "Categorization lib cl d domain labels net =
        (Error (ErrorString ''received a malformed response body''), net')"
      using Categorization_missing_key [of lib domain labels uri cl d net resp net'] by simp
  }
  {
    fix cat assume "resp domain = Some cat"
    with a g show "Categorization lib cl d domain labels net = (Ok cat, net')"
      using Categorization_present_key [of lib domain labels uri cl d net resp net' cat] by simp
  }
next
  show "(\<exists>cat. fst (Categorization lib cl d domain labels net) = Ok cat) \<longleftrightarrow>
      (\<exists>uri r body resp net'. catUri lib domain labels = Returned uri \<and>
         Get lib cl uri net = ((Some r, None), net') \<and> Body r = Some body \<and>
         fst (parseBody (Some d) body) = Inr resp \<and> domain \<in> dom resp)"
    unfolding Categorization_Ok_iff GetParse_Ok_iff by blast
qed

lemma Get_first_try:
  assumes "url_Parse lib (baseUrl @ subUri) = Inr u"
    and "client cl (length net)
           (set_Authorization cl \<lparr>Method = ''GET'', ReqURL = u, Header = Map.empty\<rparr>) = Inr r"
    and "StatusCode r < 300" and "Body r \<noteq> None"
  shows "Get lib cl subUri net =
     ((Some r, None),
      net @ [set_Authorization cl \<lparr>Method = ''GET'', ReqURL = u, Header = Map.empty\<rparr>])"
  using assms Request_loop_success [of new_Response 0 cl net _ r None]
  by (simp add: Get_def http_NewRequest_def Request_def new_Response_def maxTries_def)

text \<open>
  The theorem on a transport that answers with a body which decodes into a map with the
  one key \<^verbatim>\<open>www.amazon.com\<close>: that domain gets its record, another domain the error.
\<close>

theorem Categorization_domain_key_witness:
  "fst (Categorization plain_urllib steady_client
          (\<lambda>b. (length (unread b),
                 Inr [''www.amazon.com'' \<mapsto>
                   \<lparr>Status = 1, ContentCategories = [''Ecommerce/Shopping''],
                    SecurityCategories = []\<rparr>]))
          ''www.amazon.com'' True []) =
     Ok \<lparr>Status = 1, ContentCategories = [''Ecommerce/Shopping''], SecurityCategories = []\<rparr> \<and>
   fst (Categorization plain_urllib steady_client
          (\<lambda>b. (length (unread b),
                 Inr [''www.amazon.com'' \<mapsto>
                   \<lparr>Status = 1, ContentCategories = [''Ecommerce/Shopping''],
                    SecurityCategories = []\<rparr>]))
          ''www.opendns.com'' False []) =
     Error (ErrorString ''received a malformed response body'')"
proof -
  let ?cat = "\<lparr>Status = 1, ContentCategories = [''Ecommerce/Shopping''], SecurityCategories = []\<rparr>"
  let ?d = "\<lambda>b. (length (unread b), Inr [''www.amazon.com'' \<mapsto> ?cat])"
  let ?rq = "\<lambda>uri. set_Authorization steady_client
      \<lparr>Method = ''GET'', ReqURL = \<lparr>RawQuery = [], parts = baseUrl @ uri\<rparr>, Header = Map.empty\<rparr>"
  have parse: "url_Parse plain_urllib (baseUrl @ uri) = Inr \<lparr>RawQuery = [], parts = baseUrl @ uri\<rparr>"
    if "CHR ''%'' \<notin> set uri" for uri
    using that by (simp add: plain_urllib_def baseUrl_def)
  have get: "Get plain_urllib steady_client uri [] = ((Some ok_response, None), [?rq uri])"
    if "CHR ''%'' \<notin> set uri" for uri
    using Get_first_try [OF parse [OF that], of steady_client "[]" ok_response]
    by (simp add: steady_client_def ok_response_def)
  have dec: "fst (parseBody (Some ?d) sample_body) = Inr [''www.amazon.com'' \<mapsto> ?cat]"
    by (simp add: parseBody_def json_Decode_def)
  have u1: "catUri plain_urllib ''www.amazon.com'' True =
      Returned ''/domains/categorization/www.amazon.com?showLabels=true''"
    by (simp add: catUri_parsed plain_urllib_def)
  have u2: "catUri plain_urllib ''www.opendns.com'' False =
      Returned ''/domains/categorization/www.opendns.com''"
    by (simp add: catUri_parsed plain_urllib_def)
  have 1: "fst (Categorization plain_urllib steady_client ?d ''www.amazon.com'' True []) = Ok ?cat"
    using Categorization_domain_key [where lib = plain_urllib and cl = steady_client
        and d = ?d and domain = "''www.amazon.com''" and labels = True and net = "[]"
        and uri = "''/domains/categorization/www.amazon.com?showLabels=true''"
        and r = ok_response and body = sample_body
        and resp = "[''www.amazon.com'' \<mapsto> ?cat]"
        and net' = "[?rq ''/domains/categorization/www.amazon.com?showLabels=true'']"]
      u1 dec get [of "''/domains/categorization/www.amazon.com?showLabels=true''"]
    by (simp add: ok_response_def)
  have 2: "fst (Categorization plain_urllib steady_client ?d ''www.opendns.com'' False []) =
      Error (ErrorString ''received a malformed response body'')"
    using Categorization_domain_key [where lib = plain_urllib and cl = steady_client
        and d = ?d and domain = "''www.opendns.com''" and labels = False and net = "[]"
        and uri = "''/domains/categorization/www.opendns.com''"
        and r = ok_response and body = sample_body
        and resp = "[''www.amazon.com'' \<mapsto> ?cat]"
        and net' = "[?rq ''/domains/categorization/www.opendns.com'']"]
      u2 dec get [of "''/domains/categorization/www.opendns.com''"]
    by (simp add: ok_response_def)
  from 1 2 show ?thesis by (rule conjI)
qed

section \<open>Properties of the RR-history operations\<close>

lemma queryTypeSupported_iff:
  "queryTypeSupported qType \<longleftrightarrow> qType \<in> {''A'', ''NS'', ''MX'', ''TXT'', ''CNAME''}"
  by (auto simp: queryTypeSupported_def supportedQueryTypes_def)

lemma Sprintf_domain:
  "Sprintf (urls_at ''domain'') [queryType, domain] =
     ''/dnsdb/name/'' @ queryType @ ''/'' @ domain @ ''.json''"
  by (simp add: urls_at_def urls_def extra_args_def)

lemma Sprintf_ip:
  "Sprintf (urls_at ''ip'') [queryType, ip] = ''/dnsdb/ip/'' @ queryType @ ''/'' @ ip @ ''.json''"
  by (simp add: urls_at_def urls_def extra_args_def)

lemma Request_loop_calls:
  "maxTries - tries = n \<Longrightarrow>
     \<exists>k. k \<le> n \<and> (Body resp = None \<and> tries < maxTries \<longrightarrow> 1 \<le> k) \<and>
       snd (Request_loop cl req resp err tries net) = net @ replicate k req"
proof (induction n arbitrary: resp err tries net)
  case 0
  then have nlt: "\<not> tries < maxTries" by simp
  then have "Request_loop cl req resp err tries net = ((Some resp, err), net)"
    by (subst Request_loop.simps) simp
  with nlt show ?case by simp
next
  case (Suc n)
  then have lt: "tries < maxTries" and n: "maxTries - Suc tries = n" by simp_all
  show ?case
  proof (cases "Body resp = None")
    case False
    then have "Request_loop cl req resp err tries net = ((Some resp, err), net)"
      by (subst Request_loop.simps) auto
    with False show ?thesis by simp
  next
    case True
    have ih: "\<exists>k. k \<le> n \<and> snd (Request_loop cl req resp' err' (Suc tries) (net @ [req])) =
        (net @ [req]) @ replicate k req" for resp' err'
      using Suc.IH [OF n, of resp' err' "net @ [req]"] by blast
    have more: "\<exists>k. k \<le> Suc n \<and> 1 \<le> k \<and>
        snd (Request_loop cl req resp' err' (Suc tries) (net @ [req])) = net @ replicate k req"
      for resp' err'
    proof -
      from ih [of resp' err'] obtain k where "k \<le> n"
        and "snd (Request_loop cl req resp' err' (Suc tries) (net @ [req])) =
          (net @ [req]) @ replicate k req"
        by blast
      then have "Suc k \<le> Suc n \<and> 1 \<le> Suc k \<and>
          snd (Request_loop cl req resp' err' (Suc tries) (net @ [req])) =
            net @ replicate (Suc k) req"
        by (simp add: replicate_app_Cons_same)
      then show ?thesis by blast
    qed
    have one: "\<exists>k. k \<le> Suc n \<and> 1 \<le> k \<and> net @ [req] = net @ replicate k req"
      by (rule exI [of _ 1]) simp
    show ?thesis
      using True lt more one
      by (subst Request_loop.simps) (auto simp: client_Do_def split: sum.splits)
  qed
qed

lemma Request_plain_loop_calls:
  "maxTries - tries = n \<Longrightarrow>
     \<exists>k. k \<le> n \<and> (Body resp = None \<and> tries < maxTries \<longrightarrow> 1 \<le> k) \<and>
       snd (Request_plain_loop cl req resp err tries net) = net @ replicate k req"
proof (induction n arbitrary: resp err tries net)
  case 0
  then have nlt: "\<not> tries < maxTries" by simp
  then have "Request_plain_loop cl req resp err tries net = ((Some resp, err), net)"
    by (subst Request_plain_loop.simps) simp
  with nlt show ?case by simp
next
  case (Suc n)
  then have lt: "tries < maxTries" and n: "maxTries - Suc tries = n" by simp_all
  show ?case
  proof (cases "Body resp = None")
    case False
    then have "Request_plain_loop cl req resp err tries net = ((Some resp, err), net)"
      by (subst Request_plain_loop.simps) auto
    with False show ?thesis by simp
  next
    case True
    have more: "\<exists>k. k \<le> Suc n \<and> 1 \<le> k \<and>
        snd (Request_plain_loop cl req resp' err' (Suc tries) (net @ [req])) =
          net @ replicate k req"
      for resp' err'
    proof -
      from Suc.IH [OF n, of resp' err' "net @ [req]"] obtain k where "k \<le> n"
        and "snd (Request_plain_loop cl req resp' err' (Suc tries) (net @ [req])) =
          (net @ [req]) @ replicate k req"
        by blast
      then have "Suc k \<le> Suc n \<and> 1 \<le> Suc k \<and>
          snd (Request_plain_loop cl req resp' err' (Suc tries) (net @ [req])) =
            net @ replicate (Suc k) req"
        by (simp add: replicate_app_Cons_same)
      then show ?thesis by blast
    qed
    have one: "\<exists>k. k \<le> Suc n \<and> 1 \<le> k \<and> net @ [req] = net @ replicate k req"
      by (rule exI [of _ 1]) simp
    show ?thesis
      using True lt more one
      by (subst Request_plain_loop.simps) (auto simp: client_Do_def split: sum.splits)
  qed
qed

lemma GetParse_calls:
  assumes "url_Parse lib (baseUrl @ subUri) = Inr u"
  shows "\<exists>k. 1 \<le> k \<and> k \<le> 5 \<and>
     snd (GetParse lib cl subUri target net) =
       net @ replicate k
         \<lparr>Method = ''GET'', ReqURL = u,
          Header = [''Authorization'' \<mapsto> ''Bearer '' @ apikey cl]\<rparr>"
proof -
  let ?rq = "set_Authorization cl \<lparr>Method = ''GET'', ReqURL = u, Header = Map.empty\<rparr>"
  have net: "snd (GetParse lib cl subUri target net) = snd (Get lib cl subUri net)"
    by (simp add: GetParse_def split: prod.splits option.splits sum.splits)
  have "Get lib cl subUri net = Request_loop cl ?rq new_Response None 0 net"
    using assms by (simp add: Get_def http_NewRequest_def Request_def)
  moreover from Request_loop_calls [of 0 5 new_Response cl ?rq None net]
  obtain k where "k \<le> 5" "1 \<le> k"
    "snd (Request_loop cl ?rq new_Response None 0 net) = net @ replicate k ?rq"
    by (auto simp: maxTries_def new_Response_def)
  ultimately show ?thesis
    using net by (auto simp: set_Authorization_def)
qed

lemma GetParse_plain_calls:
  assumes "url_Parse lib (baseUrl @ subUri) = Inr u"
  shows "\<exists>k. 1 \<le> k \<and> k \<le> 5 \<and>
     snd (GetParse_plain lib cl d subUri net) =
       net @ replicate k
         \<lparr>Method = ''GET'', ReqURL = u,
          Header = [''Authorization'' \<mapsto> ''Bearer '' @ apikey cl]\<rparr>"
proof -
  let ?rq = "set_Authorization cl \<lparr>Method = ''GET'', ReqURL = u, Header = Map.empty\<rparr>"
  have net: "snd (GetParse_plain lib cl d subUri net) = snd (Get_plain lib cl subUri net)"
    by (simp add: GetParse_plain_def split: prod.splits option.splits sum.splits)
  have "Get_plain lib cl subUri net = Request_plain_loop cl ?rq new_Response None 0 net"
    using assms by (simp add: Get_plain_def http_NewRequest_def Request_plain_def)
  moreover from Request_plain_loop_calls [of 0 5 new_Response cl ?rq None net]
  obtain k where "k \<le> 5" "1 \<le> k"
    "snd (Request_plain_loop cl ?rq new_Response None 0 net) = net @ replicate k ?rq"
    by (auto simp: maxTries_def new_Response_def)
  ultimately show ?thesis
    using net by (auto simp: set_Authorization_def)
qed

lemma typed_RRHistory_unsupported:
  assumes "\<not> queryTypeSupported queryType"
  shows "DomainRRHistory lib cl d domain queryType net =
      (Error (ErrorString ''unsupported query type''), net)"
    and "IpRRHistory lib cl d ip queryType net =
      (Error (ErrorString ''unsupported query type''), net)"
  using assms by (simp_all add: DomainRRHistory_def IpRRHistory_def)

lemma typed_RRHistory_supported:
  assumes "queryTypeSupported queryType"
  shows "DomainRRHistory lib cl d domain queryType net =
      GetParse lib cl (''/dnsdb/name/'' @ queryType @ ''/'' @ domain @ ''.json'') (Some d) net"
    and "IpRRHistory lib cl d ip queryType net =
      GetParse lib cl (''/dnsdb/ip/'' @ queryType @ ''/'' @ ip @ ''.json'') (Some d) net"
  using assms
  by (simp_all add: DomainRRHistory_def IpRRHistory_def Sprintf_domain Sprintf_ip
      split: prod.splits result.splits)

lemma RRHistory_unsupported:
  assumes "\<not> queryTypeSupported queryType"
  shows "RRHistory lib cl pd query queryType net =
      (Returned (None, Some (ErrorString ''unsupported query type'')), net)"
  using assms by (simp add: RRHistory_def queryTypeSupported_def)

lemma RRHistory_supported:
  assumes "queryTypeSupported queryType"
  shows "RRHistory lib cl pd query queryType net =
      GetParse_plain lib cl pd
        ((if ip_match_anywhere query then ''/dnsdb/ip/'' else ''/dnsdb/name/'') @
          queryType @ ''/'' @ query @ ''.json'') net"
  using assms
  by (auto simp: RRHistory_def queryTypeSupported_def regexp_MatchString_ip_def ipRRHistory_def
      domainRRHistory_def Sprintf_domain Sprintf_ip)

text \<open>
  Claim C4. A query type is supported exactly when it is one of A, NS, MX, TXT, CNAME.
  For any other query type \<^verbatim>\<open>DomainRRHistory\<close>, \<^verbatim>\<open>IpRRHistory\<close> and \<^verbatim>\<open>RRHistory\<close>
  return nil with the error \<^verbatim>\<open>unsupported query type\<close> and leave the call log of the
  transport as it was. For a supported query type they are \<^verbatim>\<open>GetParse\<close> of the URI built
  from the template, and \<^verbatim>\<open>GetParse\<close> of a URI from which a request can be built calls
  the transport at least once and at most five times, each time with the GET request for
  that URL that carries the bearer token.
\<close>

theorem RRHistory_query_type_gate:
  "(queryTypeSupported queryType \<longleftrightarrow> queryType \<in> {''A'', ''NS'', ''MX'', ''TXT'', ''CNAME''}) \<and>
   (\<not> queryTypeSupported queryType \<longrightarrow>
      DomainRRHistory lib cl d domain queryType net =
        (Error (ErrorString ''unsupported query type''), net) \<and>
      IpRRHistory lib cl d ip queryType net =
        (Error (ErrorString ''unsupported query type''), net) \<and>
      RRHistory lib cl pd query queryType net =
        (Returned (None, Some (ErrorString ''unsupported query type'')), net)) \<and>
   (queryTypeSupported queryType \<longrightarrow>
      DomainRRHistory lib cl d domain queryType net =
        GetParse lib cl (''/dnsdb/name/'' @ queryType @ ''/'' @ domain @ ''.json'') (Some d) net \<and>
      IpRRHistory lib cl d ip queryType net =
        GetParse lib cl (''/dnsdb/ip/'' @ queryType @ ''/'' @ ip @ ''.json'') (Some d) net \<and>
      RRHistory lib cl pd query queryType net =
        GetParse_plain lib cl pd
          ((if ip_match_anywhere query then ''/dnsdb/ip/'' else ''/dnsdb/name/'') @
            queryType @ ''/'' @ query @ ''.json'') net) \<and>
   (url_Parse lib (baseUrl @ subUri) = Inr u \<longrightarrow>
      (\<exists>k. 1 \<le> k \<and> k \<le> 5 \<and>
         snd (GetParse lib cl subUri (Some d) net) =
           net @ replicate k
             \<lparr>Method = ''GET'', ReqURL = u,
              Header = [''Authorization'' \<mapsto> ''Bearer '' @ apikey cl]\<rparr>) \<and>
      (\<exists>k. 1 \<le> k \<and> k \<le> 5 \<and>
         snd (GetParse_plain lib cl pd subUri net) =
           net @ replicate k
             \<lparr>Method = ''GET'', ReqURL = u,
              Header = [''Authorization'' \<mapsto> ''Bearer '' @ apikey cl]\<rparr>))"
proof (intro conjI impI)
  show "queryTypeSupported queryType \<longleftrightarrow> queryType \<in> {''A'', ''NS'', ''MX'', ''TXT'', ''CNAME''}"
    by (rule queryTypeSupported_iff)
next
  assume no: "\<not> queryTypeSupported queryType"
  from no show "DomainRRHistory lib cl d domain queryType net =
      (Error (ErrorString ''unsupported query type''), net)"
    by (rule typed_RRHistory_unsupported)
  from no show "IpRRHistory lib cl d ip queryType net =
      (Error (ErrorString ''unsupported query type''), net)"
    by (rule typed_RRHistory_unsupported)
  from no show "RRHistory lib cl pd query queryType net =
      (Returned (None, Some (ErrorString ''unsupported query type'')), net)"
    by (rule RRHistory_unsupported)
next
  assume yes: "queryTypeSupported queryType"
  from yes show "DomainRRHistory lib cl d domain queryType net =
      GetParse lib cl (''/dnsdb/name/'' @ queryType @ ''/'' @ domain @ ''.json'') (Some d) net"
    by (rule typed_RRHistory_supported)
  from yes show "IpRRHistory lib cl d ip queryType net =
      GetParse lib cl (''/dnsdb/ip/'' @ queryType @ ''/'' @ ip @ ''.json'') (Some d) net"
    by (rule typed_RRHistory_supported)
  from yes show "RRHistory lib cl pd query queryType net =
      GetParse_plain lib cl pd
        ((if ip_match_anywhere query then ''/dnsdb/ip/'' else ''/dnsdb/name/'') @
          queryType @ ''/'' @ query @ ''.json'') net"
    by (rule RRHistory_supported)
next
  assume u: "url_Parse lib (baseUrl @ subUri) = Inr u"
  from u show "\<exists>k. 1 \<le> k \<and> k \<le> 5 \<and>
      snd (GetParse lib cl subUri (Some d) net) =
        net @ replicate k
          \<lparr>Method = ''GET'', ReqURL = u,
           Header = [''Authorization'' \<mapsto> ''Bearer '' @ apikey cl]\<rparr>"
    by (rule GetParse_calls)
  from u show "\<exists>k. 1 \<le> k \<and> k \<le> 5 \<and>
      snd (GetParse_plain lib cl pd subUri net) =
        net @ replicate k
          \<lparr>Method = ''GET'', ReqURL = u,
           Header = [''Authorization'' \<mapsto> ''Bearer '' @ apikey cl]\<rparr>"
    by (rule GetParse_plain_calls)
qed

text \<open>
  The theorem for the query type \<^verbatim>\<open>AFSDB\<close>, which is refused without a call, and for
  the query type \<^verbatim>\<open>A\<close>, for which the request for \<^verbatim>\<open>www.test.com\<close> is sent.
\<close>

theorem RRHistory_query_type_gate_witness:
  "DomainRRHistory plain_urllib steady_client (\<lambda>b. (length (unread b), Inr JNull))
     ''www.test.com'' ''AFSDB'' [] = (Error (ErrorString ''unsupported query type''), []) \<and>
   RRHistory plain_urllib steady_client (\<lambda>b. (length (unread b), (Some JNull, None)))
     ''www.test.com'' ''AFSDB'' [] =
     (Returned (None, Some (ErrorString ''unsupported query type'')), []) \<and>
   (\<exists>k. 1 \<le> k \<and> k \<le> 5 \<and>
      snd (DomainRRHistory plain_urllib steady_client (\<lambda>b. (length (unread b), Inr JNull))
             ''www.test.com'' ''A'' []) =
        replicate k
          \<lparr>Method = ''GET'',
           ReqURL = \<lparr>RawQuery = [],
             parts = ''https://investigate.api.opendns.com/dnsdb/name/A/www.test.com.json''\<rparr>,
           Header = [''Authorization'' \<mapsto> ''Bearer f29be9cc'']\<rparr>)"
proof -
  let ?d = "(\<lambda>b. (length (unread b), Inr JNull)) :: json decoder"
  let ?pd = "(\<lambda>b. (length (unread b), (Some JNull, None))) :: json plain_decoder"
  let ?u = "\<lparr>RawQuery = [],
      parts = ''https://investigate.api.opendns.com/dnsdb/name/A/www.test.com.json''\<rparr>"
  have no: "\<not> queryTypeSupported ''AFSDB''" and yes: "queryTypeSupported ''A''"
    by (simp_all add: queryTypeSupported_def supportedQueryTypes_def)
  have parse: "url_Parse plain_urllib (baseUrl @ ''/dnsdb/name/A/www.test.com.json'') = Inr ?u"
    by (simp add: plain_urllib_def baseUrl_def)
  have k: "apikey steady_client = ''f29be9cc''"
    by (simp add: steady_client_def)
  note refused = RRHistory_query_type_gate [where queryType = "''AFSDB''" and lib = plain_urllib
      and cl = steady_client and d = ?d and pd = ?pd and domain = "''www.test.com''"
      and query = "''www.test.com''" and ip = "''208.64.121.161''" and net = "[]"
      and subUri = "[]" and u = ?u, THEN conjunct2, THEN conjunct1, rule_format, OF no]
  note passed = RRHistory_query_type_gate [where queryType = "''A''" and lib = plain_urllib
      and cl = steady_client and d = ?d and pd = ?pd and domain = "''www.test.com''"
      and query = "''www.test.com''" and ip = "''208.64.121.161''" and net = "[]"
      and subUri = "''/dnsdb/name/A/www.test.com.json''" and u = ?u,
      THEN conjunct2, THEN conjunct2]
  have 1: "DomainRRHistory plain_urllib steady_client ?d ''www.test.com'' ''AFSDB'' [] =
      (Error (ErrorString ''unsupported query type''), [])"
    using refused [THEN conjunct1] .
  have 2: "RRHistory plain_urllib steady_client ?pd ''www.test.com'' ''AFSDB'' [] =
      (Returned (None, Some (ErrorString ''unsupported query type'')), [])"
    using refused [THEN conjunct2, THEN conjunct2] .
  have eq: "DomainRRHistory plain_urllib steady_client ?d ''www.test.com'' ''A'' [] =
      GetParse plain_urllib steady_client ''/dnsdb/name/A/www.test.com.json'' (Some ?d) []"
    using passed [THEN conjunct1, rule_format, OF yes, THEN conjunct1] by simp
  have "\<exists>k. 1 \<le> k \<and> k \<le> 5 \<and>
      snd (GetParse plain_urllib steady_client ''/dnsdb/name/A/www.test.com.json'' (Some ?d) []) =
        [] @ replicate k
          \<lparr>Method = ''GET'', ReqURL = ?u,
           Header = [''Authorization'' \<mapsto> ''Bearer '' @ apikey steady_client]\<rparr>"
    using passed [THEN conjunct2, rule_format, OF parse, THEN conjunct1] .
  then have 3: "\<exists>k. 1 \<le> k \<and> k \<le> 5 \<and>
      snd (DomainRRHistory plain_urllib steady_client ?d ''www.test.com'' ''A'' []) =
        replicate k
          \<lparr>Method = ''GET'', ReqURL = ?u,
           Header = [''Authorization'' \<mapsto> ''Bearer f29be9cc'']\<rparr>"
    unfolding eq k by simp
  from 1 2 3 show ?thesis by (intro conjI)
qed


section \<open>Properties of the batch fan-out engine\<close>

lemma sum_list_map_update:
  fixes f :: "'a \<Rightarrow> 'b::comm_monoid_add"
  shows "i < length ws \<Longrightarrow>
    sum_list (map f (ws[i := w])) + f (ws ! i) = sum_list (map f ws) + f w"
proof (induction ws arbitrary: i)
  case Nil
  then show ?case by simp
next
  case (Cons a ws)
  show ?case
  proof (cases i)
    case 0
    then show ?thesis by (simp add: ac_simps)
  next
    case (Suc j)
    with Cons.prems have "j < length ws" by simp
    then have "sum_list (map f (ws[j := w])) + f (ws ! j) = sum_list (map f ws) + f w"
      by (rule Cons.IH)
    then have "f a + (sum_list (map f (ws[j := w])) + f (ws ! j)) =
        f a + (sum_list (map f ws) + f w)"
      by simp
    with Suc show ?thesis by (simp add: ac_simps)
  qed
qed

lemma exited_le_length: "sum_list (map exited ws) \<le> length ws"
proof (induction ws)
  case Nil
  then show ?case by simp
next
  case (Cons a ws)
  then show ?case by (cases a) auto
qed

lemma exited_lt_length:
  assumes "i < length ws" and "ws ! i \<noteq> Exited"
  shows "sum_list (map exited ws) < length ws"
proof -
  have "sum_list (map exited (ws[i := Exited])) + exited (ws ! i) =
      sum_list (map exited ws) + exited (Exited :: 'a worker)"
    using assms(1) by (rule sum_list_map_update)
  moreover have "exited (ws ! i) = 0"
    using assms(2) by (cases "ws ! i") auto
  moreover have "sum_list (map exited (ws[i := Exited])) \<le> length (ws[i := Exited])"
    by (rule exited_le_length)
  ultimately show ?thesis by simp
qed

lemma all_exited:
  "sum_list (map exited ws) = length ws \<Longrightarrow> \<forall>w\<in>set ws. w = Exited"
proof (induction ws)
  case Nil
  then show ?case by simp
next
  case (Cons a ws)
  have le: "sum_list (map exited ws) \<le> length ws" by (rule exited_le_length)
  show ?case
  proof (cases a)
    case Exited
    with Cons show ?thesis by simp
  qed (use Cons.prems le in auto)
qed

lemma exited_all:
  assumes "\<forall>w\<in>set ws. w = Exited"
  shows "map exited ws = replicate (length ws) 1" and "sum_list (map in_hand ws) = {#}"
proof -
  show "map exited ws = replicate (length ws) 1"
    using assms by (intro replicate_eqI) auto
  show "sum_list (map in_hand ws) = {#}"
    using assms by (induction ws) auto
qed

lemma size_in_hand: "size (sum_list (map in_hand ws)) = sum_list (map sending ws)"
proof (induction ws)
  case Nil
  then show ?case by simp
next
  case (Cons a ws)
  then show ?case by (cases a) auto
qed

lemma sending_pos:
  assumes "i < length ws" and "ws ! i = Sending v"
  shows "1 \<le> sum_list (map sending ws)"
proof -
  have "sum_list (map sending (ws[i := Ranging])) + sending (ws ! i) =
      sum_list (map sending ws) + sending (Ranging :: 'a worker)"
    using assms(1) by (rule sum_list_map_update)
  with assms(2) show ?thesis by simp
qed

lemma exited_update_same:
  assumes "i < length ws" and "exited w = exited (ws ! i)"
  shows "map exited (ws[i := w]) = map exited ws"
proof -
  have "map exited (ws[i := w]) = (map exited ws)[i := map exited ws ! i]"
    using assms by (simp add: map_update)
  then show ?thesis by simp
qed

lemma draining_update:
  assumes "\<exists>w'\<in>set (ws[i := w]). draining w'" and "\<not> draining w"
  shows "\<exists>w'\<in>set ws. draining w'"
  using assms set_update_subset_insert [of ws i w] by auto

lemma errored_snoc:
  "errored (fs @ [(u, (v, Some e))]) = errored fs @ [v]"
  "errored (fs @ [(u, (v, None))]) = errored fs"
  by (simp_all add: errored_def)

lemma errored_length: "length (errored fs) \<le> length fs"
  by (simp add: errored_def)

lemma engine_room:
  assumes "engine_inv fetch P subUris s"
  shows "length (pushed s) + sum_list (map sending (workers s)) + length (inChan s) +
    length (pending s) \<le> length subUris"
proof -
  from assms have "size (mset (pushed s) + sum_list (map in_hand (workers s))) =
      length (errored (fetched s))"
    by (simp add: engine_inv_def)
  then have "length (pushed s) + sum_list (map sending (workers s)) \<le> length (fetched s)"
    using errored_length [of "fetched s"] by (simp add: size_in_hand)
  moreover from assms have "length (map fst (fetched s) @ inChan s @ pending s) = length subUris"
    by (simp add: engine_inv_def)
  ultimately show ?thesis by simp
qed

lemma engine_inv_init:
  assumes "pGetParse maxGoroutines subUris net0 = Returned s0"
  shows "engine_inv fetch (nat maxGoroutines) subUris s0"
proof -
  have "sum_list (map in_hand (replicate k (Ranging :: 'a worker))) = {#}"
    and "map exited (replicate k (Ranging :: 'a worker)) = replicate k 0" for k
    by (induction k) auto
  with assms show ?thesis
    by (auto simp: pGetParse_def engine_inv_def errored_def split: if_splits)
qed

lemma engine_inv_step:
  assumes "engine_step fetch s s'" and "engine_inv fetch P subUris s" and "never_panics fetch"
  shows "engine_inv fetch P subUris s'"
  using assms(1)
proof cases
  case (producer_send u us)
  with assms(2) engine_room [OF assms(2)] show ?thesis by (auto simp: engine_inv_def)
next
  case producer_close
  with assms(2) show ?thesis by (auto simp: engine_inv_def)
next
  case (worker_push i u us outVal err net')
  have "sum_list (map in_hand ((workers s)[i := Sending outVal])) + in_hand (workers s ! i) =
      sum_list (map in_hand (workers s)) + in_hand (Sending outVal)"
    using worker_push(3) by (rule sum_list_map_update)
  moreover have "map exited ((workers s)[i := Sending outVal]) = map exited (workers s)"
    using worker_push(3,4) by (intro exited_update_same) auto
  moreover have "\<not> (\<exists>w\<in>set ((workers s)[i := Sending outVal]). draining w)"
    using draining_update [of "workers s" i "Sending outVal"] assms(2) worker_push(5)
    by (auto simp: engine_inv_def)
  moreover have "\<exists>n n'. fetch u n = (Returned (outVal, Some err), n')"
    using worker_push(6) by blast
  ultimately show ?thesis
    using assms(2) worker_push by (auto simp: engine_inv_def errored_snoc)
next
  case (worker_drop i u us outVal net')
  have "\<exists>n n'. fetch u n = (Returned (outVal, None), n')"
    using worker_drop(6) by blast
  with assms(2) worker_drop show ?thesis by (auto simp: engine_inv_def errored_snoc)
next
  case (worker_panic i u us p net')
  with assms(3) show ?thesis by (auto simp: never_panics_def)
next
  case (worker_send i v)
  have "sum_list (map in_hand ((workers s)[i := Ranging])) + in_hand (workers s ! i) =
      sum_list (map in_hand (workers s)) + in_hand (Ranging :: 'a worker)"
    using worker_send(3) by (rule sum_list_map_update)
  with worker_send(4)
  have hand: "sum_list (map in_hand (workers s)) =
      add_mset v (sum_list (map in_hand ((workers s)[i := Ranging])))"
    by simp
  have "mset (pushed s) + sum_list (map in_hand (workers s)) = mset (errored (fetched s))"
    using assms(2) by (simp add: engine_inv_def)
  then have "add_mset v (mset (pushed s) + sum_list (map in_hand ((workers s)[i := Ranging]))) =
      mset (errored (fetched s))"
    unfolding hand by simp
  moreover have "map exited ((workers s)[i := Ranging]) = map exited (workers s)"
    using worker_send(3,4) by (intro exited_update_same) auto
  moreover have "(\<exists>w\<in>set ((workers s)[i := Ranging]). draining w) \<longrightarrow>
      (\<exists>w\<in>set (workers s). draining w)"
    using draining_update [of "workers s" i Ranging] by auto
  ultimately show ?thesis
    using assms(2) worker_send by (auto simp: engine_inv_def)
next
  case (worker_send_closed i v)
  from worker_send_closed(3,4) have "sum_list (map exited (workers s)) < length (workers s)"
    by (intro exited_lt_length [of i]) auto
  with assms(2) worker_send_closed(5) show ?thesis
    by (auto simp: engine_inv_def)
next
  case (worker_drained i)
  have "sum_list (map in_hand ((workers s)[i := Signalling])) + in_hand (workers s ! i) =
      sum_list (map in_hand (workers s)) + in_hand (Signalling :: 'a worker)"
    using worker_drained(3) by (rule sum_list_map_update)
  moreover have "map exited ((workers s)[i := Signalling]) = map exited (workers s)"
    using worker_drained(3,4) by (intro exited_update_same) auto
  ultimately show ?thesis
    using assms(2) worker_drained by (auto simp: engine_inv_def)
next
  case (worker_signal i)
  have "sum_list (map in_hand ((workers s)[i := Exited])) + in_hand (workers s ! i) =
      sum_list (map in_hand (workers s)) + in_hand (Exited :: 'a worker)"
    and ex: "sum_list (map exited ((workers s)[i := Exited])) + exited (workers s ! i) =
      sum_list (map exited (workers s)) + exited (Exited :: 'a worker)"
    using worker_signal(3) by (rule sum_list_map_update)+
  moreover have sig: "(map exited (workers s))[i := Suc (map exited (workers s) ! i)] =
      map exited ((workers s)[i := Exited])"
    using worker_signal(3,4) by (simp add: map_update)
  moreover have "\<exists>w\<in>set (workers s). draining w"
    using worker_signal(3,4) nth_mem [of i "workers s"] by (intro bexI [of _ "workers s ! i"]) auto
  moreover have "sum_list (map exited (workers s)) < length (workers s)"
    using worker_signal(3,4) by (intro exited_lt_length [of i]) auto
  ultimately show ?thesis
    using assms(2) worker_signal by (auto simp: engine_inv_def)
next
  case (supervisor_receive n k)
  with assms(2) show ?thesis by (auto simp: engine_inv_def)
next
  case supervisor_close
  with assms(2) show ?thesis by (auto simp: engine_inv_def)
next
  case (consumer_receive v vs)
  with assms(2) show ?thesis by (auto simp: engine_inv_def)
next
  case consumer_end
  with assms(2) show ?thesis by (auto simp: engine_inv_def)
qed

lemma engine_step_decreases:
  assumes "engine_step fetch s s'"
  shows "remaining_work s' < remaining_work s"
  using assms
proof cases
  case (worker_push i u us outVal err net')
  have "sum_list (map weight ((workers s)[i := Sending outVal])) + weight (workers s ! i) =
      sum_list (map weight (workers s)) + weight (Sending outVal)"
    using worker_push(3) by (rule sum_list_map_update)
  with worker_push show ?thesis by (simp add: remaining_work_def)
next
  case (worker_send i v)
  have "sum_list (map weight ((workers s)[i := Ranging])) + weight (workers s ! i) =
      sum_list (map weight (workers s)) + weight (Ranging :: 'a worker)"
    using worker_send(3) by (rule sum_list_map_update)
  with worker_send show ?thesis by (simp add: remaining_work_def)
next
  case (worker_send_closed i v)
  have "sum_list (map weight ((workers s)[i := Exited])) + weight (workers s ! i) =
      sum_list (map weight (workers s)) + weight (Exited :: 'a worker)"
    using worker_send_closed(3) by (rule sum_list_map_update)
  with worker_send_closed show ?thesis by (simp add: remaining_work_def)
next
  case (worker_drained i)
  have "sum_list (map weight ((workers s)[i := Signalling])) + weight (workers s ! i) =
      sum_list (map weight (workers s)) + weight (Signalling :: 'a worker)"
    using worker_drained(3) by (rule sum_list_map_update)
  with worker_drained show ?thesis by (simp add: remaining_work_def)
next
  case (worker_signal i)
  have "sum_list (map weight ((workers s)[i := Exited])) + weight (workers s ! i) =
      sum_list (map weight (workers s)) + weight (Exited :: 'a worker)"
    using worker_signal(3) by (rule sum_list_map_update)
  with worker_signal show ?thesis by (simp add: remaining_work_def)
qed (simp_all add: remaining_work_def)

lemma worker_cases:
  obtains (ranging) i where "i < length ws" "ws ! i = Ranging"
  | (sending) i v where "i < length ws" "ws ! i = Sending v"
  | (signalling) i where "i < length ws" "ws ! i = Signalling"
  | (exited) "\<forall>w\<in>set ws. w = Exited"
proof (cases "\<forall>w\<in>set ws. w = Exited")
  case True
  then show ?thesis by (rule exited)
next
  case False
  then obtain w where "w \<in> set ws" "w \<noteq> Exited" by blast
  then obtain i where i: "i < length ws" "ws ! i = w"
    by (auto simp: in_set_conv_nth)
  with \<open>w \<noteq> Exited\<close> ranging sending signalling show ?thesis
    by (cases w) auto
qed

lemma engine_progress:
  assumes "engine_inv fetch P subUris s" and "never_panics fetch" and "\<not> finished s"
  shows "\<exists>s'. engine_step fetch s s'"
proof -
  from assms(1) have ok: "crashed s = None" by (simp add: engine_inv_def)
  note room = engine_room [OF assms(1)]
  from assms(1) have sig: "signalled s = map exited (workers s)"
    and caps: "inCap s = length subUris" "outCap s = length subUris" "doneCap s = P"
      "length (workers s) = P"
    and count: "collected s + waiting s = P" "doneChan s + collected s = sum_list (signalled s)"
    by (simp_all add: engine_inv_def)
  show ?thesis
  proof (cases "pending s")
    case (Cons u us)
    with room caps have "length (inChan s) < inCap s" by simp
    with ok Cons show ?thesis by (blast intro: producer_send)
  next
    case Nil
    show ?thesis
    proof (cases "inClosed s")
      case False
      with ok Nil show ?thesis by (blast intro: producer_close)
    next
      case True
      show ?thesis
      proof (cases rule: worker_cases [of "workers s"])
        case (ranging i)
        show ?thesis
        proof (cases "inChan s")
          case Nil
          with ok ranging True show ?thesis by (blast intro: worker_drained)
        next
          case (Cons u us)
          obtain r net' where f: "fetch u (netlog s) = (r, net')"
            by (cases "fetch u (netlog s)")
          with assms(2) obtain outVal err where "r = Returned (outVal, err)"
            by (cases r) (auto simp: never_panics_def)
          with f have "fetch u (netlog s) = (Returned (outVal, err), net')" by simp
          with ok ranging Cons show ?thesis
            by (cases err) (blast intro: worker_drop worker_push)+
        qed
      next
        case (sending i v)
        then have lt: "sum_list (map exited (workers s)) < length (workers s)"
          by (intro exited_lt_length [of i]) auto
        have pos: "1 \<le> sum_list (map sending (workers s))"
          using sending by (rule sending_pos)
        from assms(1) lt sig caps count have "\<not> outClosed s" by (auto simp: engine_inv_def)
        moreover have "length (outChan s) < outCap s"
        proof -
          from assms(1) have "length (received s) + length (outChan s) = length (pushed s)"
            by (metis engine_inv_def length_append)
          with room pos caps show ?thesis by simp
        qed
        ultimately show ?thesis
          using ok sending by (blast intro: worker_send)
      next
        case (signalling i)
        then have "sum_list (map exited (workers s)) < length (workers s)"
          by (intro exited_lt_length [of i]) auto
        with sig caps count have "doneChan s < doneCap s" by simp
        with ok signalling show ?thesis by (blast intro: worker_signal)
      next
        case exited
        then have all: "sum_list (map exited (workers s)) = length (workers s)"
          by (simp add: exited_all sum_list_replicate)
        with sig caps count have dw: "doneChan s = waiting s" by simp
        show ?thesis
        proof (cases "waiting s")
          case (Suc n)
          with dw have "doneChan s = Suc n" by simp
          with ok Suc show ?thesis by (blast intro: supervisor_receive)
        next
          case 0
          show ?thesis
          proof (cases "outClosed s")
            case False
            with ok 0 show ?thesis by (blast intro: supervisor_close)
          next
            case closed: True
            show ?thesis
            proof (cases "outChan s")
              case Nil
              with ok closed assms(3) show ?thesis by (blast intro: consumer_end)
            next
              case (Cons v vs)
              with ok assms(3) show ?thesis by (blast intro: consumer_receive)
            qed
          qed
        qed
      qed
    qed
  qed
qed

lemma engine_closed:
  assumes "engine_inv fetch P subUris s" and "outClosed s"
  shows "waiting s = 0 \<and> collected s = P \<and> doneChan s = 0 \<and> signalled s = replicate P 1 \<and>
    (\<forall>w\<in>set (workers s). w = Exited)"
proof -
  from assms have w: "waiting s = 0" "collected s = P" by (simp_all add: engine_inv_def)
  have "sum_list (map exited (workers s)) \<le> length (workers s)"
    by (rule exited_le_length)
  with assms(1) w have d: "doneChan s = 0"
    and full: "sum_list (map exited (workers s)) = length (workers s)"
    by (auto simp: engine_inv_def)
  from full have ex: "\<forall>w\<in>set (workers s). w = Exited"
    by (rule all_exited)
  with assms(1) have "signalled s = replicate P 1"
    by (simp add: engine_inv_def exited_all)
  with w d ex show ?thesis by simp
qed

lemma engine_finished:
  assumes "engine_inv fetch P subUris s" and "finished s" and "0 < P"
  shows "outClosed s \<and> outChan s = [] \<and> received s = pushed s \<and>
    inClosed s \<and> inChan s = [] \<and> pending s = [] \<and>
    map fst (fetched s) = subUris \<and> mset (received s) = mset (errored (fetched s))"
proof -
  from assms have c: "outClosed s" "outChan s = []" "received s = pushed s"
    by (auto simp: engine_inv_def)
  from engine_closed [OF assms(1) c(1)] have ex: "\<forall>w\<in>set (workers s). w = Exited"
    by simp
  from assms(1,3) have "workers s \<noteq> []" by (auto simp: engine_inv_def)
  with ex have "\<exists>w\<in>set (workers s). draining w"
    by (cases "workers s") auto
  with assms(1) have i: "inClosed s" "inChan s = []" "pending s = []"
    by (auto simp: engine_inv_def)
  with assms(1) have f: "map fst (fetched s) = subUris"
    by (simp add: engine_inv_def)
  from assms(1) ex have "mset (pushed s) = mset (errored (fetched s))"
    by (simp add: engine_inv_def exited_all)
  with c i f show ?thesis by simp
qed

lemma engine_finished_stuck:
  assumes "engine_inv fetch P subUris s" and "finished s" and "0 < P"
  shows "\<not> (\<exists>s'. engine_step fetch s s')"
proof
  assume "\<exists>s'. engine_step fetch s s'"
  then obtain s' where "engine_step fetch s s'" ..
  from engine_finished [OF assms] have f: "outClosed s" "outChan s = []" "inClosed s"
    "inChan s = []" "pending s = []"
    by simp_all
  from engine_closed [OF assms(1) f(1)] have w: "waiting s = 0"
    and "\<forall>w\<in>set (workers s). w = Exited"
    by simp_all
  then have ex: "workers s ! i = Exited" if "i < length (workers s)" for i
    using that nth_mem by blast
  from \<open>engine_step fetch s s'\<close> show False
    by cases (use f w assms(2) ex in auto)
qed

lemma Request_plain_loop_result:
  assumes "bodies_present cl"
  shows "maxTries - tries = n \<Longrightarrow> (Body resp = None \<longrightarrow> tries < maxTries) \<Longrightarrow>
     (case fst (Request_plain_loop cl req resp err tries net) of
        (None, e) \<Rightarrow> e \<noteq> None
      | (Some r, e) \<Rightarrow> Body r \<noteq> None)"
proof (induction n arbitrary: resp err tries net)
  case 0
  then have "\<not> (Body resp = None \<and> tries < maxTries)" by auto
  then have "Request_plain_loop cl req resp err tries net = ((Some resp, err), net)"
    by (subst Request_plain_loop.simps) auto
  with 0 show ?case by auto
next
  case (Suc n)
  then have lt: "tries < maxTries" and n: "maxTries - Suc tries = n" by simp_all
  show ?case
  proof (cases "Body resp = None")
    case False
    then have "Request_plain_loop cl req resp err tries net = ((Some resp, err), net)"
      by (subst Request_plain_loop.simps) auto
    with False show ?thesis by simp
  next
    case True
    show ?thesis
    proof (cases "client cl (length net) req")
      case (Inl e)
      show ?thesis
      proof (cases "tries = maxTries - 1")
        case last: True
        with True lt Inl
        have "Request_plain_loop cl req resp err tries net =
            ((None, Some (FailedAllAttempts (Some e))), net @ [req])"
          by (subst Request_plain_loop.simps) (simp add: client_Do_def)
        then show ?thesis by simp
      next
        case more: False
        with True lt Inl
        have "Request_plain_loop cl req resp err tries net =
            Request_plain_loop cl req new_Response (Some e) (Suc tries) (net @ [req])"
          by (subst Request_plain_loop.simps) (simp add: client_Do_def)
        moreover from more lt have "Suc tries < maxTries" by simp
        ultimately show ?thesis
          using Suc.IH [OF n, of new_Response "Some e" "net @ [req]"] by simp
      qed
    next
      case (Inr r)
      with assms have "Body r \<noteq> None" by (auto simp: bodies_present_def)
      moreover from True lt Inr
      have "Request_plain_loop cl req resp err tries net =
          Request_plain_loop cl req r None (Suc tries) (net @ [req])"
        by (subst Request_plain_loop.simps) (simp add: client_Do_def)
      ultimately show ?thesis
        using Suc.IH [OF n, of r None "net @ [req]"] by auto
    qed
  qed
qed

lemma GetParse_plain_never_panics:
  assumes "bodies_present cl"
  shows "never_panics (GetParse_plain lib cl d)"
  unfolding never_panics_def
proof (intro allI)
  fix u net p net'
  show "GetParse_plain lib cl d u net \<noteq> (Panicked p, net')"
  proof (cases "http_NewRequest lib ''GET'' (baseUrl @ u)")
    case (Inl e)
    then show ?thesis by (simp add: GetParse_plain_def Get_plain_def)
  next
    case (Inr req)
    have "case fst (Request_plain_loop cl (set_Authorization cl req) new_Response None 0 net) of
        (None, e) \<Rightarrow> e \<noteq> None
      | (Some r, e) \<Rightarrow> Body r \<noteq> None"
      using assms by (rule Request_plain_loop_result) (simp_all add: maxTries_def)
    with Inr show ?thesis
      by (auto simp: GetParse_plain_def Get_plain_def Request_plain_def
          split: prod.splits option.splits)
  qed
qed

lemma engine_inv_reachable:
  assumes "(engine_step fetch)\<^sup>*\<^sup>* s0 s" and "engine_inv fetch P subUris s0"
    and "never_panics fetch"
  shows "engine_inv fetch P subUris s"
  using assms(1)
proof (induction rule: rtranclp_induct)
  case base
  show ?case by (rule assms(2))
next
  case (step s s')
  from step(2) step(3) assms(3) show ?case by (rule engine_inv_step)
qed

lemma engine_runs_to_end:
  assumes "never_panics fetch"
  shows "engine_inv fetch P subUris s \<Longrightarrow> \<exists>t. (engine_step fetch)\<^sup>*\<^sup>* s t \<and> finished t"
proof (induction "remaining_work s" arbitrary: s rule: less_induct)
  case less
  show ?case
  proof (cases "finished s")
    case True
    then show ?thesis by blast
  next
    case False
    with less.prems assms obtain s' where st: "engine_step fetch s s'"
      using engine_progress by blast
    then have "remaining_work s' < remaining_work s"
      by (rule engine_step_decreases)
    moreover from st less.prems assms have "engine_inv fetch P subUris s'"
      by (rule engine_inv_step)
    ultimately obtain t where "(engine_step fetch)\<^sup>*\<^sup>* s' t" "finished t"
      using less.hyps by blast
    with st show ?thesis
      by (blast intro: converse_rtranclp_into_rtranclp)
  qed
qed

lemma pGetParse_start:
  assumes "0 \<le> maxGoroutines" and "pGetParse maxGoroutines subUris net0 = Returned s0"
  shows "pending s0 = subUris \<and> inChan s0 = [] \<and> \<not> inClosed s0 \<and>
    workers s0 = replicate (nat maxGoroutines) Ranging \<and>
    outChan s0 = [] \<and> \<not> outClosed s0 \<and> doneChan s0 = 0 \<and>
    waiting s0 = nat maxGoroutines \<and> collected s0 = 0 \<and>
    signalled s0 = replicate (nat maxGoroutines) 0 \<and>
    received s0 = [] \<and> \<not> finished s0 \<and> fetched s0 = [] \<and> pushed s0 = [] \<and>
    netlog s0 = net0 \<and> crashed s0 = None \<and>
    inCap s0 = length subUris \<and> outCap s0 = length subUris \<and>
    doneCap s0 = nat maxGoroutines \<and>
    remaining_work s0 = 4 * length subUris + 3 * nat maxGoroutines + 3"
proof -
  have "sum_list (map weight (replicate k (Ranging :: 'a worker))) = 2 * k" for k
    by (induction k) auto
  with assms show ?thesis
    by (auto simp: pGetParse_def remaining_work_def)
qed

lemma Get_plain_first_try:
  assumes "url_Parse lib (baseUrl @ subUri) = Inr u"
    and "client cl (length net)
           (set_Authorization cl \<lparr>Method = ''GET'', ReqURL = u, Header = Map.empty\<rparr>) = Inr r"
    and "Body r \<noteq> None"
  shows "Get_plain lib cl subUri net =
     ((Some r, None),
      net @ [set_Authorization cl \<lparr>Method = ''GET'', ReqURL = u, Header = Map.empty\<rparr>])"
  using assms Request_plain_loop_success [of new_Response 0 cl net _ r None]
  by (simp add: Get_plain_def http_NewRequest_def Request_plain_def new_Response_def maxTries_def)

lemma Get_plain_all_fail:
  assumes "url_Parse lib (baseUrl @ subUri) = Inr u"
    and "\<forall>n. client cl n
           (set_Authorization cl \<lparr>Method = ''GET'', ReqURL = u, Header = Map.empty\<rparr>) = Inl e"
  shows "fst (Get_plain lib cl subUri net) = (None, Some (FailedAllAttempts (Some e)))"
  using assms
    Request_plain_all_fail [of cl net "\<lparr>Method = ''GET'', ReqURL = u, Header = Map.empty\<rparr>"]
  by (simp add: Get_plain_def http_NewRequest_def last_error_def)

lemma partial_client_found:
  "\<exists>net'. GetParse_plain plain_urllib partial_client found_decoder
       ''/dnsdb/ip/a/208.64.121.161.json'' net =
     (Returned (Some [(''found'', JBool True)], None), net')"
proof -
  let ?good = "''/dnsdb/ip/a/208.64.121.161.json''"
  have pg: "url_Parse plain_urllib (baseUrl @ ?good) = Inr \<lparr>RawQuery = [], parts = baseUrl @ ?good\<rparr>"
    by (simp add: plain_urllib_def baseUrl_def)
  have cg: "client partial_client n (set_Authorization partial_client
      \<lparr>Method = ''GET'', ReqURL = \<lparr>RawQuery = [], parts = baseUrl @ ?good\<rparr>, Header = Map.empty\<rparr>) =
      Inr ok_response" for n
    by (simp add: partial_client_def set_Authorization_def)
  have "Get_plain plain_urllib partial_client ?good net =
      ((Some ok_response, None), net @ [set_Authorization partial_client
        \<lparr>Method = ''GET'', ReqURL = \<lparr>RawQuery = [], parts = baseUrl @ ?good\<rparr>,
         Header = Map.empty\<rparr>])"
    using Get_plain_first_try [OF pg cg, of net] by (simp add: ok_response_def)
  then show ?thesis
    by (simp add: GetParse_plain_def ok_response_def parseBody_plain_def found_decoder_def)
qed

lemma partial_client_failed:
  "\<exists>net'. GetParse_plain plain_urllib partial_client found_decoder
       ''/dnsdb/ip/a/108.59.1.5.json'' net =
     (Returned (None, Some (FailedAllAttempts (Some (LibraryError ''no such host'')))), net')"
proof -
  let ?bad = "''/dnsdb/ip/a/108.59.1.5.json''"
  have pb: "url_Parse plain_urllib (baseUrl @ ?bad) = Inr \<lparr>RawQuery = [], parts = baseUrl @ ?bad\<rparr>"
    by (simp add: plain_urllib_def baseUrl_def)
  have cb: "client partial_client n (set_Authorization partial_client
      \<lparr>Method = ''GET'', ReqURL = \<lparr>RawQuery = [], parts = baseUrl @ ?bad\<rparr>, Header = Map.empty\<rparr>) =
      Inl (LibraryError ''no such host'')" for n
    by (simp add: partial_client_def set_Authorization_def)
  have "fst (Get_plain plain_urllib partial_client ?bad net) =
      (None, Some (FailedAllAttempts (Some (LibraryError ''no such host''))))"
    using pb cb by (intro Get_plain_all_fail) auto
  then show ?thesis
    by (cases "Get_plain plain_urllib partial_client ?bad net") (simp add: GetParse_plain_def)
qed

text \<open>
  Claim C2. Let the pool size \<open>P\<close> be at least 1 and let the transport keep the promise
  of \<^verbatim>\<open>net/http\<close> that a response without an error has a body, so that every fetch
  returns. The state in which \<^verbatim>\<open>pGetParse\<close> returns has the whole URI list still to be
  queued, \<open>P\<close> workers that are all at the head of their loop, three empty and open
  channels with the capacities of the source, a supervisor that has \<open>P\<close> signals to
  receive and has received none, and a caller's loop that has not ended and has
  received nothing. In every state that the goroutines reach from there by any
  interleaving:

  \<^item> no goroutine has panicked and there are \<open>P\<close> workers;
  \<^item> the URIs that have been fetched, those in \<^verbatim>\<open>inChan\<close> and those not yet queued
    are, in this order, the URI list, and every fetched URI is recorded with what
    \<^verbatim>\<open>GetParse\<close> returned for it;
  \<^item> the values sent on \<^verbatim>\<open>outChan\<close> and those a worker is about to send are the values
    of the fetches that returned an error; what the caller has received followed by
    what is buffered in \<^verbatim>\<open>outChan\<close> is what was sent, in the order sent;
  \<^item> a worker has sent one signal on \<^verbatim>\<open>done\<close> if it has returned and none otherwise,
    and it is at its signal or has returned only when \<^verbatim>\<open>inChan\<close> is closed and empty
    and every URI was queued;
  \<^item> the signals the supervisor has received and those it has still to receive are
    \<open>P\<close> together, the signals sent are those received and those buffered in
    \<^verbatim>\<open>done\<close>, and \<^verbatim>\<open>outChan\<close> is closed only when the supervisor has received \<open>P\<close>
    signals, one from each worker, and every worker has returned;
  \<^item> every step lowers the remaining work, which is \<open>4 N + 3 P + 3\<close> at the start for
    \<open>N\<close> URIs, so no run is longer than that; some goroutine can take a step as long as
    the caller's loop has not ended; and a run to the end of that loop exists;
  \<^item> when the caller's loop has ended, \<^verbatim>\<open>outChan\<close> is closed and empty, every URI of
    the list has been fetched, in the order of the list, the caller has received
    exactly the values of the fetches that returned an error, and nothing can run any
    more.
\<close>

theorem pGetParse_completes:
  assumes "1 \<le> maxGoroutines"
    and "bodies_present cl"
    and "pGetParse maxGoroutines subUris net0 = Returned s0"
    and "(engine_step (GetParse_plain lib cl d))\<^sup>*\<^sup>* s0 s"
  shows "(pending s0 = subUris \<and> inChan s0 = [] \<and> \<not> inClosed s0 \<and>
     workers s0 = replicate (nat maxGoroutines) Ranging \<and>
     outChan s0 = [] \<and> \<not> outClosed s0 \<and> doneChan s0 = 0 \<and>
     waiting s0 = nat maxGoroutines \<and> collected s0 = 0 \<and>
     signalled s0 = replicate (nat maxGoroutines) 0 \<and>
     received s0 = [] \<and> \<not> finished s0 \<and> fetched s0 = [] \<and> pushed s0 = [] \<and>
     netlog s0 = net0 \<and> crashed s0 = None \<and>
     inCap s0 = length subUris \<and> outCap s0 = length subUris \<and>
     doneCap s0 = nat maxGoroutines \<and>
     remaining_work s0 = 4 * length subUris + 3 * nat maxGoroutines + 3) \<and>
    (crashed s = None \<and> length (workers s) = nat maxGoroutines) \<and>
    (map fst (fetched s) @ inChan s @ pending s = subUris \<and>
     (\<forall>f\<in>set (fetched s). \<exists>n n'.
        GetParse_plain lib cl d (fst f) n = (Returned (snd f), n'))) \<and>
    (mset (pushed s) + sum_list (map in_hand (workers s)) = mset (errored (fetched s)) \<and>
     received s @ outChan s = pushed s) \<and>
    (signalled s = map exited (workers s) \<and>
     ((\<exists>w\<in>set (workers s). draining w) \<longrightarrow>
        inClosed s \<and> inChan s = [] \<and> pending s = [])) \<and>
    (collected s + waiting s = nat maxGoroutines \<and>
     doneChan s + collected s = sum_list (signalled s) \<and>
     (outClosed s \<longrightarrow>
        waiting s = 0 \<and> collected s = nat maxGoroutines \<and> doneChan s = 0 \<and>
        signalled s = replicate (nat maxGoroutines) 1 \<and>
        (\<forall>w\<in>set (workers s). w = Exited))) \<and>
    ((\<forall>s'. engine_step (GetParse_plain lib cl d) s s' \<longrightarrow>
        remaining_work s' < remaining_work s) \<and>
     (\<not> finished s \<longrightarrow> (\<exists>s'. engine_step (GetParse_plain lib cl d) s s')) \<and>
     (\<exists>t. (engine_step (GetParse_plain lib cl d))\<^sup>*\<^sup>* s t \<and> finished t)) \<and>
    (finished s \<longrightarrow>
       outClosed s \<and> outChan s = [] \<and> received s = pushed s \<and>
       inClosed s \<and> inChan s = [] \<and> pending s = [] \<and>
       map fst (fetched s) = subUris \<and> mset (received s) = mset (errored (fetched s)) \<and>
       \<not> (\<exists>s'. engine_step (GetParse_plain lib cl d) s s'))"
proof -
  let ?P = "nat maxGoroutines"
  let ?fetch = "GetParse_plain lib cl d"
  from assms(1) have pos: "0 < ?P" and nonneg: "0 \<le> maxGoroutines" by simp_all
  have np: "never_panics ?fetch"
    using assms(2) by (rule GetParse_plain_never_panics)
  have inv0: "engine_inv ?fetch ?P subUris s0"
    using assms(3) by (rule engine_inv_init)
  have inv: "engine_inv ?fetch ?P subUris s"
    using assms(4) inv0 np by (rule engine_inv_reachable)
  note 0 = pGetParse_start [OF nonneg assms(3)]
  have 1: "crashed s = None \<and> length (workers s) = ?P"
    using inv by (simp add: engine_inv_def)
  have 2: "map fst (fetched s) @ inChan s @ pending s = subUris \<and>
      (\<forall>f\<in>set (fetched s). \<exists>n n'. ?fetch (fst f) n = (Returned (snd f), n'))"
    using inv by (simp add: engine_inv_def)
  have 3: "mset (pushed s) + sum_list (map in_hand (workers s)) = mset (errored (fetched s)) \<and>
      received s @ outChan s = pushed s"
    using inv by (simp add: engine_inv_def)
  have 4: "signalled s = map exited (workers s) \<and>
      ((\<exists>w\<in>set (workers s). draining w) \<longrightarrow> inClosed s \<and> inChan s = [] \<and> pending s = [])"
    using inv by (auto simp: engine_inv_def)
  have 5: "collected s + waiting s = ?P \<and>
      doneChan s + collected s = sum_list (signalled s) \<and>
      (outClosed s \<longrightarrow>
         waiting s = 0 \<and> collected s = ?P \<and> doneChan s = 0 \<and>
         signalled s = replicate ?P 1 \<and> (\<forall>w\<in>set (workers s). w = Exited))"
    using inv engine_closed [OF inv] by (simp add: engine_inv_def)
  have 6: "(\<forall>s'. engine_step ?fetch s s' \<longrightarrow> remaining_work s' < remaining_work s) \<and>
      (\<not> finished s \<longrightarrow> (\<exists>s'. engine_step ?fetch s s')) \<and>
      (\<exists>t. (engine_step ?fetch)\<^sup>*\<^sup>* s t \<and> finished t)"
    using engine_step_decreases [of ?fetch s] engine_progress [OF inv np]
      engine_runs_to_end [OF np inv]
    by blast
  have 7: "finished s \<longrightarrow>
      outClosed s \<and> outChan s = [] \<and> received s = pushed s \<and>
      inClosed s \<and> inChan s = [] \<and> pending s = [] \<and>
      map fst (fetched s) = subUris \<and> mset (received s) = mset (errored (fetched s)) \<and>
      \<not> (\<exists>s'. engine_step ?fetch s s')"
    using engine_finished [OF inv _ pos] engine_finished_stuck [OF inv _ pos]
    by blast
  show ?thesis
    using 0 1 2 3 4 5 6 7 by - ((rule conjI, assumption)+, assumption)
qed

text \<open>
  The theorem for a pool of two workers and two URIs, of which the transport answers the
  first and fails the second: a run to the end of the caller's loop exists, and at its
  end both URIs have been fetched, both workers have signalled once and returned, the
  supervisor has received two signals and closed the channel, and the caller has
  received one value, the nil map of the failed item.
\<close>

theorem pGetParse_completes_witness:
  "\<exists>s0 t.
     pGetParse 2 [''/dnsdb/ip/a/208.64.121.161.json'', ''/dnsdb/ip/a/108.59.1.5.json''] [] =
       Returned s0 \<and>
     workers s0 = [Ranging, Ranging] \<and>
     pending s0 = [''/dnsdb/ip/a/208.64.121.161.json'', ''/dnsdb/ip/a/108.59.1.5.json''] \<and>
     waiting s0 = 2 \<and> \<not> finished s0 \<and>
     (engine_step (GetParse_plain plain_urllib partial_client found_decoder))\<^sup>*\<^sup>* s0 t \<and>
     finished t \<and> outClosed t \<and> outChan t = [] \<and>
     fetched t =
       [(''/dnsdb/ip/a/208.64.121.161.json'', (Some [(''found'', JBool True)], None)),
        (''/dnsdb/ip/a/108.59.1.5.json'',
         (None, Some (FailedAllAttempts (Some (LibraryError ''no such host'')))))] \<and>
     pushed t = [None] \<and> received t = [None] \<and>
     signalled t = [1, 1] \<and> collected t = 2 \<and> waiting t = 0 \<and> doneChan t = 0"
proof -
  let ?good = "''/dnsdb/ip/a/208.64.121.161.json''" and ?bad = "''/dnsdb/ip/a/108.59.1.5.json''"
  let ?fetch = "GetParse_plain plain_urllib partial_client found_decoder"
  let ?err = "FailedAllAttempts (Some (LibraryError ''no such host''))"
  obtain s0 :: "(string \<times> json) list engine"
    where s0: "pGetParse 2 [?good, ?bad] [] = Returned s0"
    by (simp add: pGetParse_def)
  have b: "bodies_present partial_client"
    by (simp add: bodies_present_def partial_client_def ok_response_def)
  have r: "(engine_step ?fetch)\<^sup>*\<^sup>* s0 s0" by simp
  have one: "(1::int) \<le> 2" by simp
  note at_start = pGetParse_completes [OF one b s0 r]
  note start = at_start [THEN conjunct1]
  from at_start have "\<exists>t. (engine_step ?fetch)\<^sup>*\<^sup>* s0 t \<and> finished t" by blast
  then obtain t where t: "(engine_step ?fetch)\<^sup>*\<^sup>* s0 t" "finished t" by blast
  note at_end = pGetParse_completes [OF one b s0 t(1)]
  from at_end t(2) have fin: "outClosed t" "outChan t = []" "received t = pushed t"
    "map fst (fetched t) = [?good, ?bad]" "mset (received t) = mset (errored (fetched t))"
    by blast+
  note closed = at_end [THEN conjunct2, THEN conjunct2, THEN conjunct2, THEN conjunct2,
      THEN conjunct2, THEN conjunct1, THEN conjunct2, THEN conjunct2, THEN mp, OF fin(1)]
  from closed have sup: "waiting t = 0" "collected t = 2" "doneChan t = 0"
    "signalled t = replicate (nat 2) 1"
    by simp_all
  from at_end have res: "\<forall>f\<in>set (fetched t). \<exists>n n'. ?fetch (fst f) n = (Returned (snd f), n')"
    by blast
  from fin(4) obtain a c where f: "fetched t = [(?good, a), (?bad, c)]"
    by (auto simp: map_eq_Cons_conv)
  from res f obtain n n' where "?fetch ?good n = (Returned a, n')" by auto
  with partial_client_found [of n] have a: "a = (Some [(''found'', JBool True)], None)"
    by auto
  from res f obtain m m' where "?fetch ?bad m = (Returned c, m')" by auto
  with partial_client_failed [of m] have c: "c = (None, Some ?err)"
    by auto
  from fin(5) f a c have rec: "received t = [None]"
    by (simp add: errored_def)
  from sup(4) have sig: "signalled t = [1, 1]"
    by (simp add: numeral_2_eq_2)
  from start have st: "workers s0 = [Ranging, Ranging]" "pending s0 = [?good, ?bad]"
    "waiting s0 = 2" "\<not> finished s0"
    by (simp_all add: numeral_2_eq_2)
  from s0 st t fin(1,2) f a c rec fin(3) sig sup(1,2,3) show ?thesis
    by (intro exI [of _ s0] exI [of _ t]) simp
qed

text \<open>
  Claim C1 on the code. A worker that takes two URIs, the first fetched and decoded
  without error and the second failing on every attempt, sends one value on the output
  channel: the nil map of the failed item. The decoded map of the first item is not sent.
\<close>

theorem doPGetParse_sends_failures:
  "\<exists>net'.
     doPGetParse (GetParse_plain plain_urllib partial_client found_decoder)
       [''/dnsdb/ip/a/208.64.121.161.json'', ''/dnsdb/ip/a/108.59.1.5.json''] [] [] =
     Returned ([None], net')"
proof -
  let ?good = "''/dnsdb/ip/a/208.64.121.161.json''" and ?bad = "''/dnsdb/ip/a/108.59.1.5.json''"
  let ?fetch = "GetParse_plain plain_urllib partial_client found_decoder"
  have pg: "url_Parse plain_urllib (baseUrl @ ?good) = Inr \<lparr>RawQuery = [], parts = baseUrl @ ?good\<rparr>"
    and pb: "url_Parse plain_urllib (baseUrl @ ?bad) = Inr \<lparr>RawQuery = [], parts = baseUrl @ ?bad\<rparr>"
    by (simp_all add: plain_urllib_def baseUrl_def)
  have cg: "client partial_client n (set_Authorization partial_client
      \<lparr>Method = ''GET'', ReqURL = \<lparr>RawQuery = [], parts = baseUrl @ ?good\<rparr>, Header = Map.empty\<rparr>) =
      Inr ok_response" for n
    by (simp add: partial_client_def set_Authorization_def)
  have cb: "client partial_client n (set_Authorization partial_client
      \<lparr>Method = ''GET'', ReqURL = \<lparr>RawQuery = [], parts = baseUrl @ ?bad\<rparr>, Header = Map.empty\<rparr>) =
      Inl (LibraryError ''no such host'')" for n
    by (simp add: partial_client_def set_Authorization_def)
  have "Get_plain plain_urllib partial_client ?good [] =
      ((Some ok_response, None), [set_Authorization partial_client
        \<lparr>Method = ''GET'', ReqURL = \<lparr>RawQuery = [], parts = baseUrl @ ?good\<rparr>,
         Header = Map.empty\<rparr>])"
    using Get_plain_first_try [OF pg cg, of "[]"] by (simp add: ok_response_def)
  then obtain net1 where
    good: "?fetch ?good [] = (Returned (Some [(''found'', JBool True)], None), net1)"
    by (simp add: GetParse_plain_def ok_response_def parseBody_plain_def found_decoder_def)
  have "fst (Get_plain plain_urllib partial_client ?bad net1) =
      (None, Some (FailedAllAttempts (Some (LibraryError ''no such host''))))"
    using pb cb by (intro Get_plain_all_fail) auto
  then obtain net2 where
    bad: "?fetch ?bad net1 =
      (Returned (None, Some (FailedAllAttempts (Some (LibraryError ''no such host'')))), net2)"
    by (cases "Get_plain plain_urllib partial_client ?bad net1") (simp add: GetParse_plain_def)
  have "doPGetParse ?fetch [?good, ?bad] [] [] = Returned ([None], net2)"
    by (simp add: good bad)
  then show ?thesis ..
qed

end
